theory Spec2Isabelle
  imports Complex_Main "HOL-Library.AList"
begin

section \<open>Values, exceptions and the program monad\<close>

text \<open>
  JSON values as \<^verbatim>\<open>json.load\<close> returns them and \<^verbatim>\<open>json.dump\<close> takes them.
  A Python float is the rational it stands for; arithmetic on floats rounds, as set out
  below. \<open>JTime t\<close> is the string that
  \<^verbatim>\<open>datetime.isoformat()\<close> gives for the UTC instant \<open>t\<close> (seconds since the
  epoch), the strings that \<^verbatim>\<open>datetime.fromisoformat\<close> accepts; \<open>JStr\<close> holds all
  other strings. A dict is an association list in insertion order.
\<close>

datatype json =
    JNull
  | JBool bool
  | JInt int
  | JFloat rat
  | JStr string
  | JTime rat
  | JList "json list"
  | JDict "(string \<times> json) list"

text \<open>An exception: the name of its type and the text of \<^verbatim>\<open>str(exc_val)\<close>.\<close>

datatype exn = Exn string string

datatype 'a result = Return 'a | Raise exn

type_synonym ('s, 'a) prog = "'s \<Rightarrow> 'a result \<times> 's"

definition return :: "'a \<Rightarrow> ('s, 'a) prog" where
  "return x s = (Return x, s)"

definition raise :: "exn \<Rightarrow> ('s, 'a) prog" where
  "raise e s = (Raise e, s)"

definition lift :: "'a result \<Rightarrow> ('s, 'a) prog" where
  "lift r s = (r, s)"

definition bind :: "('s, 'a) prog \<Rightarrow> ('a \<Rightarrow> ('s, 'b) prog) \<Rightarrow> ('s, 'b) prog" where
  "bind m f s = (case m s of (Return x, s') \<Rightarrow> f x s' | (Raise e, s') \<Rightarrow> (Raise e, s'))"

text \<open>\<^verbatim>\<open>try: body except Exception as e: logger.error(...)\<close>; the logger is not modelled.\<close>

definition try_except_log :: "('s, unit) prog \<Rightarrow> ('s, unit) prog" where
  "try_except_log body s = (case body s of (_, s') \<Rightarrow> (Return (), s'))"

fun truthy :: "json \<Rightarrow> bool" where
  "truthy JNull = False"
| "truthy (JBool b) = b"
| "truthy (JInt i) = (i \<noteq> 0)"
| "truthy (JFloat r) = (r \<noteq> 0)"
| "truthy (JStr s) = (s \<noteq> [])"
| "truthy (JTime t) = True"
| "truthy (JList xs) = (xs \<noteq> [])"
| "truthy (JDict kvs) = (kvs \<noteq> [])"

fun type_name :: "json \<Rightarrow> string" where
  "type_name JNull = ''NoneType''"
| "type_name (JBool b) = ''bool''"
| "type_name (JInt i) = ''int''"
| "type_name (JFloat r) = ''float''"
| "type_name (JStr s) = ''str''"
| "type_name (JTime t) = ''str''"
| "type_name (JList xs) = ''list''"
| "type_name (JDict kvs) = ''dict''"

definition quoted :: "string \<Rightarrow> string" where
  "quoted s = [CHR 0x27] @ s @ [CHR 0x27]"

definition AttributeError :: "json \<Rightarrow> string \<Rightarrow> exn" where
  "AttributeError obj attr =
     Exn ''AttributeError'' (quoted (type_name obj) @ '' object has no attribute '' @ quoted attr)"

definition KeyError :: "string \<Rightarrow> exn" where
  "KeyError key = Exn ''KeyError'' (quoted key)"

definition TypeError :: "string \<Rightarrow> exn" where
  "TypeError text = Exn ''TypeError'' text"

definition ValueError :: "string \<Rightarrow> exn" where
  "ValueError text = Exn ''ValueError'' text"

text \<open>\<^verbatim>\<open>obj.get(key, default)\<close>: only a dict has the method.\<close>

fun py_get :: "json \<Rightarrow> string \<Rightarrow> json \<Rightarrow> json result" where
  "py_get (JDict kvs) key dflt =
     Return (case map_of kvs key of Some v \<Rightarrow> v | None \<Rightarrow> dflt)"
| "py_get obj key dflt = Raise (AttributeError obj ''get'')"

text \<open>\<^verbatim>\<open>obj[key]\<close> with a string key.\<close>

fun py_getitem :: "json \<Rightarrow> string \<Rightarrow> json result" where
  "py_getitem (JDict kvs) key =
     (case map_of kvs key of Some v \<Rightarrow> Return v | None \<Rightarrow> Raise (KeyError key))"
| "py_getitem (JList xs) key =
     Raise (TypeError ''list indices must be integers or slices, not str'')"
| "py_getitem (JStr s) key =
     Raise (TypeError (''string indices must be integers, not '' @ quoted ''str''))"
| "py_getitem (JTime t) key =
     Raise (TypeError (''string indices must be integers, not '' @ quoted ''str''))"
| "py_getitem obj key =
     Raise (TypeError (quoted (type_name obj) @ '' object is not subscriptable''))"

text \<open>\<^verbatim>\<open>obj.insert(0, x)\<close>: only a list has the method.\<close>

fun py_insert0 :: "json \<Rightarrow> json \<Rightarrow> json list result" where
  "py_insert0 (JList xs) x = Return (x # xs)"
| "py_insert0 obj x = Raise (AttributeError obj ''insert'')"

text \<open>\<^verbatim>\<open>obj[key] = v\<close> on a dict: an existing key keeps its place, a new one goes last.\<close>

fun py_setitem :: "json \<Rightarrow> string \<Rightarrow> json \<Rightarrow> json" where
  "py_setitem (JDict kvs) key v = JDict (AList.update key v kvs)"
| "py_setitem obj key v = obj"

text \<open>\<^verbatim>\<open>datetime.fromisoformat(v)\<close>, as seconds since the epoch.\<close>

fun fromisoformat :: "json \<Rightarrow> rat result" where
  "fromisoformat (JTime t) = Return t"
| "fromisoformat (JStr s) = Raise (ValueError (''Invalid isoformat string: '' @ quoted s))"
| "fromisoformat obj = Raise (TypeError ''fromisoformat: argument must be str'')"

text \<open>\<^verbatim>\<open>int(x)\<close> on a float: truncation toward zero.\<close>

definition py_int :: "rat \<Rightarrow> int" where
  "py_int x = (if 0 \<le> x then \<lfloor>x\<rfloor> else \<lceil>x\<rceil>)"

text \<open>
  Arithmetic on floats: Python's floats are IEEE 754 doubles, and \<^verbatim>\<open>-\<close> and \<^verbatim>\<open>/\<close> give the
  double nearest to the exact result, ties to the even significand. \<open>binade a\<close> is the
  exponent \<open>e\<close> with \<open>2 ^ e \<le> a < 2 ^ (e + 1)\<close>, not below -1022 (the subnormal range)
  and not above 1023; doubles of that size are the multiples of \<open>2 ^ (e - 52)\<close>. An
  \<^verbatim>\<open>int\<close> operand of \<^verbatim>\<open>/\<close> is converted to the nearest double first, and \<^verbatim>\<open>/\<close> on two
  \<^verbatim>\<open>int\<close>s gives the double nearest to the quotient. Results beyond the largest double,
  where Python gives \<^verbatim>\<open>inf\<close> or raises \<^verbatim>\<open>OverflowError\<close>, are not modelled:
  \<open>finite_double\<close> says that a result is within the range.
\<close>

definition pow2 :: "int \<Rightarrow> rat" where
  "pow2 k = (if 0 \<le> k then 2 ^ nat k else 1 / 2 ^ nat (- k))"

fun find_up :: "nat \<Rightarrow> int \<Rightarrow> rat \<Rightarrow> rat \<Rightarrow> int" where
  "find_up 0 e p a = e"
| "find_up (Suc k) e p a = (if 2 * p \<le> a then find_up k (e + 1) (2 * p) a else e)"

fun find_down :: "nat \<Rightarrow> int \<Rightarrow> rat \<Rightarrow> rat \<Rightarrow> int" where
  "find_down 0 e p a = e"
| "find_down (Suc k) e p a = (if p \<le> a then e else find_down k (e - 1) (p / 2) a)"

definition binade :: "rat \<Rightarrow> int" where
  "binade a = (if 1 \<le> a then find_up 1023 0 1 a else find_down 1021 (- 1) (1 / 2) a)"

definition round_half_even :: "rat \<Rightarrow> int" where
  "round_half_even y =
     (let f = \<lfloor>y\<rfloor>; d = y - of_int f
      in if d < 1 / 2 then f else if 1 / 2 < d then f + 1 else if even f then f else f + 1)"

definition round_double :: "rat \<Rightarrow> rat" where
  "round_double x =
     (if x = 0 then 0
      else let q = pow2 (binade \<bar>x\<bar> - 52) in of_int (round_half_even (x / q)) * q)"

definition float_sub :: "rat \<Rightarrow> rat \<Rightarrow> rat" where
  "float_sub a b = round_double (a - b)"

definition float_div :: "rat \<Rightarrow> rat \<Rightarrow> rat" where
  "float_div a b = round_double (a / b)"

definition float_of_int :: "int \<Rightarrow> rat" where
  "float_of_int i = round_double (of_int i)"

definition int_truediv :: "int \<Rightarrow> int \<Rightarrow> rat" where
  "int_truediv a b = round_double (of_int a / of_int b)"

definition finite_double :: "rat \<Rightarrow> bool" where
  "finite_double x = (\<bar>x\<bar> \<le> (2 ^ 53 - 1) * 2 ^ 971)"

definition opt_int :: "int option \<Rightarrow> json" where
  "opt_int v = (case v of None \<Rightarrow> JNull | Some i \<Rightarrow> JInt i)"

definition opt_str :: "string option \<Rightarrow> json" where
  "opt_str v = (case v of None \<Rightarrow> JNull | Some s \<Rightarrow> JStr s)"

section \<open>pypulse\_state.py: the files and the store\<close>

text \<open>
  The names are those of the source, without the leading underscores of the private
  methods; a method of a class whose name is taken carries the class name in front.
\<close>

datatype path = PROGRESS_FILE | HISTORY_FILE | WIDGET_POSITION_FILE

text \<open>
  What reading a file meets: no file (\<^verbatim>\<open>FileNotFoundError\<close>, an \<^verbatim>\<open>IOError\<close>), a file
  whose opening or reading fails with an \<^verbatim>\<open>IOError\<close>, bytes that are not UTF-8 (the
  payload is the text of the \<^verbatim>\<open>UnicodeDecodeError\<close>), text that \<^verbatim>\<open>json.load\<close> rejects
  with \<^verbatim>\<open>JSONDecodeError\<close> (the empty file is one), or a JSON document.
\<close>

datatype file_state =
    Missing
  | Unreadable
  | Undecodable string
  | Malformed
  | Document json

text \<open>
  The calls that change a state file. The store makes the first two, inside
  \<^verbatim>\<open>_write_safe\<close>: \<^verbatim>\<open>open(filepath, 'w')\<close>, which creates the file or cuts it to length
  zero, and \<^verbatim>\<open>json.dump(data, f)\<close> into the file so opened. The third is the call that a
  write through a temporary file ends with, \<^verbatim>\<open>os.replace(tmp, filepath)\<close> with \<open>tmp\<close>
  holding the whole document: it is here so that such a write can be told apart from
  what the store does; the source has no call of it.
\<close>

datatype fs_call =
    Open_w path
  | Json_dump path json
  | Os_replace path json

text \<open>Calls on the global \<^verbatim>\<open>pulse_state\<close>, logged where a wrapper or session makes them.\<close>

datatype call = Call_update_progress string | Call_complete_task string

text \<open>
  The environment of the process: the three state files, the clock (its \<open>i\<close>-th reading,
  for \<^verbatim>\<open>time.time()\<close> and \<^verbatim>\<open>datetime.now(timezone.utc)\<close> alike, and the number of
  readings made), the process id, and two logs that the program itself does not read:
  the calls that changed a state file and the calls on \<^verbatim>\<open>pulse_state\<close>, latest first.
  Writes succeed; the logger's output is not kept. The lock of the store is local to the
  process: the calls of one process are in sequence, and a reader in another process (the
  widget) may read a file between any two of them.
\<close>

record world =
  files :: "path \<Rightarrow> file_state"
  clock :: "nat \<Rightarrow> rat"
  ticks :: nat
  os_pid :: int
  writes :: "fs_call list"
  calls :: "call list"

definition time_now :: "(world, rat) prog" where
  "time_now w = (Return (clock w (ticks w)), w\<lparr>ticks := Suc (ticks w)\<rparr>)"

definition read_safe :: "path \<Rightarrow> (world, json) prog" where
  "read_safe filepath w =
     (case files w filepath of
        Document j \<Rightarrow> (Return j, w)
      | Undecodable text \<Rightarrow> (Raise (Exn ''UnicodeDecodeError'' text), w)
      | Missing \<Rightarrow> (Return (JDict []), w)
      | Unreadable \<Rightarrow> (Return (JDict []), w)
      | Malformed \<Rightarrow> (Return (JDict []), w))"

text \<open>
  What a call does to the files: a file just opened for writing holds no JSON document
  until the dump; a replaced file holds the whole new document at once.
\<close>

fun perform :: "fs_call \<Rightarrow> world \<Rightarrow> world" where
  "perform (Open_w filepath) w =
     w\<lparr>files := (files w)(filepath := Malformed), writes := Open_w filepath # writes w\<rparr>"
| "perform (Json_dump filepath data) w =
     w\<lparr>files := (files w)(filepath := Document data),
       writes := Json_dump filepath data # writes w\<rparr>"
| "perform (Os_replace filepath data) w =
     w\<lparr>files := (files w)(filepath := Document data),
       writes := Os_replace filepath data # writes w\<rparr>"

text \<open>\<^verbatim>\<open>with open(filepath, 'w', encoding='utf-8') as f: json.dump(data, f, ...)\<close>\<close>

definition write_safe :: "path \<Rightarrow> json \<Rightarrow> (world, unit) prog" where
  "write_safe filepath data w =
     (Return (), perform (Json_dump filepath data) (perform (Open_w filepath) w))"

text \<open>The dict that \<^verbatim>\<open>_ensure_files_exist\<close> and \<^verbatim>\<open>complete_task\<close> both write.\<close>

definition inactive_template :: json where
  "inactive_template = JDict
     [(''active'', JBool False), (''task_name'', JNull), (''current_step'', JNull),
      (''progress'', JFloat 0), (''eta_seconds'', JNull), (''started_at'', JNull),
      (''last_update'', JNull), (''error'', JNull), (''pid'', JNull)]"

definition ensure_files_exist :: "(world, unit) prog" where
  "ensure_files_exist =
     bind (\<lambda>w. if files w PROGRESS_FILE = Missing
                then write_safe PROGRESS_FILE inactive_template w else (Return (), w)) (\<lambda>_.
     bind (\<lambda>w. if files w HISTORY_FILE = Missing
                then write_safe HISTORY_FILE (JDict [(''completed_tasks'', JList [])]) w
                else (Return (), w)) (\<lambda>_.
     (\<lambda>w. if files w WIDGET_POSITION_FILE = Missing
          then write_safe WIDGET_POSITION_FILE (JDict [(''x'', JInt 100), (''y'', JInt 100)]) w
          else (Return (), w))))"

definition get_started_at :: "(world, json) prog" where
  "get_started_at =
     bind (read_safe PROGRESS_FILE) (\<lambda>current. lift (py_get current ''started_at'' JNull))"

definition update_progress ::
  "string \<Rightarrow> string \<Rightarrow> rat \<Rightarrow> int option \<Rightarrow> string option \<Rightarrow> int option \<Rightarrow> (world, unit) prog"
where
  "update_progress task_name current_step progress eta_seconds error pid =
     bind time_now (\<lambda>now.
     bind get_started_at (\<lambda>started.
     (\<lambda>w. write_safe PROGRESS_FILE (JDict
        [(''active'', JBool True),
         (''task_name'', JStr task_name),
         (''current_step'', JStr current_step),
         (''progress'', JFloat (max 0 (min 1 progress))),
         (''eta_seconds'', opt_int eta_seconds),
         (''started_at'', if truthy started then started else JTime now),
         (''last_update'', JTime now),
         (''error'', opt_str error),
         (''pid'', JInt (case pid of None \<Rightarrow> os_pid w
                         | Some p \<Rightarrow> if p \<noteq> 0 then p else os_pid w))]) w)))"

definition calculate_duration :: "(world, int option) prog" where
  "calculate_duration =
     bind (read_safe PROGRESS_FILE) (\<lambda>current.
     bind (lift (py_get current ''started_at'' JNull)) (\<lambda>started.
     if truthy started then
       bind (lift (fromisoformat started)) (\<lambda>start_time.
       bind time_now (\<lambda>now. return (Some (py_int (now - start_time)))))
     else return None))"

definition complete_task :: "string \<Rightarrow> (world, unit) prog" where
  "complete_task task_name =
     bind (read_safe PROGRESS_FILE) (\<lambda>current_state.
     bind (read_safe HISTORY_FILE) (\<lambda>history.
     bind time_now (\<lambda>completed_at.
     bind calculate_duration (\<lambda>duration.
     bind (lift (py_getitem history ''completed_tasks'')) (\<lambda>tasks.
     bind (lift (py_insert0 tasks (JDict
        [(''task_name'', JStr task_name),
         (''completed_at'', JTime completed_at),
         (''duration_seconds'', opt_int duration)]))) (\<lambda>inserted.
     bind (write_safe HISTORY_FILE
        (py_setitem history ''completed_tasks'' (JList (take 10 inserted)))) (\<lambda>_.
     write_safe PROGRESS_FILE inactive_template)))))))"

definition get_progress :: "(world, json) prog" where
  "get_progress = read_safe PROGRESS_FILE"

definition get_history :: "(world, json) prog" where
  "get_history = read_safe HISTORY_FILE"

definition save_widget_position :: "int \<Rightarrow> int \<Rightarrow> (world, unit) prog" where
  "save_widget_position x y =
     write_safe WIDGET_POSITION_FILE (JDict [(''x'', JInt x), (''y'', JInt y)])"

definition get_widget_position :: "(world, json) prog" where
  "get_widget_position =
     bind (read_safe WIDGET_POSITION_FILE) (\<lambda>pos.
     bind (lift (py_get pos ''x'' (JInt 100))) (\<lambda>x.
     bind (lift (py_get pos ''y'' (JInt 100))) (\<lambda>y.
     return (JDict [(''x'', x), (''y'', y)]))))"

definition clear_stale_progress :: "int \<Rightarrow> (world, unit) prog" where
  "clear_stale_progress max_idle_seconds =
     try_except_log
      (bind get_progress (\<lambda>state.
       bind (lift (py_get state ''active'' JNull)) (\<lambda>active.
       bind (if truthy active then lift (py_get state ''last_update'' JNull)
             else return active) (\<lambda>cond.
       if truthy cond then
         bind (lift (py_getitem state ''last_update'')) (\<lambda>lu.
         bind (lift (fromisoformat lu)) (\<lambda>last_update.
         bind time_now (\<lambda>now.
         if now - last_update > of_int max_idle_seconds then
           bind (lift (py_get state ''task_name'' JNull)) (\<lambda>task_name.
           bind (lift (py_get state ''current_step'' JNull)) (\<lambda>current_step.
           bind (lift (py_get state ''progress'' (JFloat 0))) (\<lambda>progress.
           bind (lift (py_get state ''error'' JNull)) (\<lambda>error.
           write_safe PROGRESS_FILE (JDict
             [(''active'', JBool False),
              (''task_name'', task_name),
              (''current_step'', current_step),
              (''progress'', progress),
              (''eta_seconds'', JNull),
              (''started_at'', JNull),
              (''last_update'', JNull),
              (''error'', error),
              (''pid'', JNull)])))))
         else return ())))
       else return ()))))"

section \<open>pypulse.py: the progress wrapper and the task context manager\<close>

text \<open>
  A method runs on its object and the environment together, so that what it assigned to
  \<^verbatim>\<open>self\<close> before raising is kept.
\<close>

definition on_world :: "(world, 'a) prog \<Rightarrow> ('o \<times> world, 'a) prog" where
  "on_world m s = (case m (snd s) of (r, w') \<Rightarrow> (r, (fst s, w')))"

definition get_self :: "('o \<times> world, 'o) prog" where
  "get_self s = (Return (fst s), s)"

definition set_self :: "'o \<Rightarrow> ('o \<times> world, unit) prog" where
  "set_self self s = (Return (), (self, snd s))"

definition log_call :: "call \<Rightarrow> (world, unit) prog" where
  "log_call c w = (Return (), w\<lparr>calls := c # calls w\<rparr>)"

definition pulse_state_update_progress ::
  "string \<Rightarrow> string \<Rightarrow> rat \<Rightarrow> int option \<Rightarrow> string option \<Rightarrow> int option \<Rightarrow> (world, unit) prog"
where
  "pulse_state_update_progress task_name current_step progress eta_seconds error pid =
     bind (log_call (Call_update_progress task_name)) (\<lambda>_.
     update_progress task_name current_step progress eta_seconds error pid)"

definition pulse_state_complete_task :: "string \<Rightarrow> (world, unit) prog" where
  "pulse_state_complete_task task_name =
     bind (log_call (Call_complete_task task_name)) (\<lambda>_. complete_task task_name)"

text \<open>\<^verbatim>\<open>str(i)\<close> of an integer, as the f-strings print it.\<close>

fun str_nat :: "nat \<Rightarrow> string" where
  "str_nat k =
     (if k < 10 then [char_of (48 + k)] else str_nat (k div 10) @ [char_of (48 + k mod 10)])"

declare str_nat.simps [simp del]

definition str_int :: "int \<Rightarrow> string" where
  "str_int i = (if i < 0 then ''-'' @ str_nat (nat (- i)) else str_nat (nat i))"

text \<open>\<^verbatim>\<open>a or b\<close> on an optional string: \<^verbatim>\<open>None\<close> and the empty string are falsy.\<close>

definition str_or :: "string option \<Rightarrow> string \<Rightarrow> string" where
  "str_or a b = (case a of None \<Rightarrow> b | Some s \<Rightarrow> if s \<noteq> [] then s else b)"

subsection \<open>PulseProgress\<close>

text \<open>
  The wrapped iterable: \<^verbatim>\<open>None\<close>, a finite sequence with \<^verbatim>\<open>__len__\<close> (a list, a range)
  or a finite one without (a generator).
\<close>

datatype 'a iterable = NoIterable | Sized "'a list" | Unsized "'a list"

fun items :: "'a iterable \<Rightarrow> 'a list" where
  "items NoIterable = []"
| "items (Sized xs) = xs"
| "items (Unsized xs) = xs"

text \<open>The attributes of \<^verbatim>\<open>self\<close> that a method reads.\<close>

record 'a PulseProgress =
  pp_iterable :: "'a iterable"
  pp_desc :: string
  pp_step :: string
  pp_total :: "int option"
  pp_unit :: string
  pp_leave :: bool
  pp_mininterval :: rat
  pp_disable :: bool
  pp_n :: int
  pp_start_t :: rat
  pp_last_update_t :: rat

definition calculate_eta :: "('a PulseProgress \<times> world, int option) prog" where
  "calculate_eta =
     bind get_self (\<lambda>self.
     case pp_total self of
       None \<Rightarrow> return None
     | Some tot \<Rightarrow>
         if tot = 0 \<or> pp_n self \<le> 0 then return None
         else
           bind (on_world time_now) (\<lambda>now.
           let elapsed = float_sub now (pp_start_t self);
               speed = (if elapsed > 0 then float_div (float_of_int (pp_n self)) elapsed
                        else 0)
           in if speed > 0
              then return (Some (py_int (float_div (float_of_int (tot - pp_n self)) speed)))
              else return None))"

definition report_progress :: "('a PulseProgress \<times> world, unit) prog" where
  "report_progress =
     bind get_self (\<lambda>self.
     if pp_disable self then return ()
     else
       bind (case pp_total self of
               None \<Rightarrow> return (0, None)
             | Some tot \<Rightarrow>
                 if tot \<noteq> 0
                 then bind calculate_eta
                        (\<lambda>eta. return (int_truediv (pp_n self) tot, eta))
                 else return (0, None)) (\<lambda>(progress, eta).
       on_world (pulse_state_update_progress
         (pp_desc self)
         (pp_step self @ '': '' @ str_int (pp_n self) @ ''/''
            @ (case pp_total self of
                 None \<Rightarrow> ''?''
               | Some tot \<Rightarrow> if tot \<noteq> 0 then str_int tot else ''?'')
            @ pp_unit self)
         progress eta None None)))"

definition PulseProgress_init ::
  "'a iterable \<Rightarrow> string option \<Rightarrow> int option \<Rightarrow> string option \<Rightarrow> string option \<Rightarrow> string \<Rightarrow>
   bool \<Rightarrow> rat \<Rightarrow> bool \<Rightarrow> int \<Rightarrow> (world, 'a PulseProgress) prog"
where
  "PulseProgress_init iterable desc tot task step unit leave mininterval disable initial =
     bind time_now (\<lambda>t. \<lambda>w.
       let self = \<lparr>pp_iterable = iterable,
                   pp_desc = str_or desc (str_or task ''Processing''),
                   pp_step = str_or step ''1/1'',
                   pp_total = (case tot of
                                 Some k \<Rightarrow> Some k
                               | None \<Rightarrow> (case iterable of
                                             Sized xs \<Rightarrow> Some (int (length xs))
                                           | _ \<Rightarrow> None)),
                   pp_unit = unit,
                   pp_leave = leave,
                   pp_mininterval = mininterval,
                   pp_disable = disable,
                   pp_n = initial,
                   pp_start_t = t,
                   pp_last_update_t = t\<rparr>
       in if \<not> disable
          then (case report_progress (self, w) of (r, (self', w')) \<Rightarrow>
                  (case r of Return _ \<Rightarrow> (Return self', w') | Raise e \<Rightarrow> (Raise e, w')))
          else (Return self, w))"

definition update :: "int \<Rightarrow> ('a PulseProgress \<times> world, unit) prog" where
  "update k =
     bind get_self (\<lambda>self.
     if pp_disable self then return ()
     else
       bind (set_self (self\<lparr>pp_n := pp_n self + k\<rparr>)) (\<lambda>_.
       bind (on_world time_now) (\<lambda>now.
       bind get_self (\<lambda>self.
       if float_sub now (pp_last_update_t self) \<ge> pp_mininterval self
       then bind report_progress (\<lambda>_.
            bind get_self (\<lambda>self. set_self (self\<lparr>pp_last_update_t := now\<rparr>)))
       else return ()))))"

text \<open>
  \<^verbatim>\<open>_print_final\<close> reads the clock once on either branch; what it prints is not kept.
  The constructor also registers \<^verbatim>\<open>close\<close> with \<^verbatim>\<open>atexit\<close>: the interpreter calls it once
  more when the process ends.
\<close>

definition print_final :: "('a PulseProgress \<times> world, unit) prog" where
  "print_final = bind (on_world time_now) (\<lambda>_. return ())"

definition close :: "('a PulseProgress \<times> world, unit) prog" where
  "close =
     bind get_self (\<lambda>self.
     if \<not> pp_disable self \<and> pp_n self > 0
     then bind (on_world (pulse_state_complete_task (pp_desc self))) (\<lambda>_.
          if pp_leave self then print_final else return ())
     else return ())"

text \<open>
  \<^verbatim>\<open>__iter__\<close> holds a \<^verbatim>\<open>yield\<close>, so it is a generator function. Below is a \<^verbatim>\<open>for\<close> loop
  that runs it to its end with a body that touches neither the wrapper nor the store:
  the result is the list of yielded items and how the generator ended. The
  \<^verbatim>\<open>return iter(...)\<close> of the first branch ends the generator before any \<^verbatim>\<open>yield\<close>;
  on the other branch \<^verbatim>\<open>close()\<close> runs in the \<^verbatim>\<open>finally\<close> clause, and an exception of
  its own replaces the one of the loop.
\<close>

fun iter_loop ::
  "'a list \<Rightarrow> 'a PulseProgress \<times> world \<Rightarrow> ('a list \<times> unit result) \<times> ('a PulseProgress \<times> world)"
where
  "iter_loop [] s = (([], Return ()), s)"
| "iter_loop (obj # rest) s =
     (case update 1 s of
        (Return _, s') \<Rightarrow> (case iter_loop rest s' of ((ys, r), s'') \<Rightarrow> ((obj # ys, r), s''))
      | (Raise e, s') \<Rightarrow> (([obj], Raise e), s'))"

definition iter ::
  "'a PulseProgress \<times> world \<Rightarrow> ('a list \<times> unit result) \<times> ('a PulseProgress \<times> world)"
where
  "iter s =
     (if pp_disable (fst s) \<or> pp_iterable (fst s) = NoIterable then (([], Return ()), s)
      else (case iter_loop (items (pp_iterable (fst s))) s of
              ((ys, r), s') \<Rightarrow>
                (case close s' of
                   (Return _, s'') \<Rightarrow> ((ys, r), s'')
                 | (Raise e, s'') \<Rightarrow> ((ys, Raise e), s''))))"

text \<open>\<^verbatim>\<open>__exit__\<close> of the wrapper, whatever the exception.\<close>

definition PulseProgress_exit ::
  "(string \<times> string) option \<Rightarrow> ('a PulseProgress \<times> world, unit) prog" where
  "PulseProgress_exit exc = close"

subsection \<open>PulseTask\<close>

text \<open>
  \<^verbatim>\<open>step_format\<close> is kept as what \<^verbatim>\<open>step_format.format(step=, total=, description=)\<close>
  renders.
\<close>

record PulseTask =
  pt_task_name :: string
  pt_total_steps :: int
  pt_step_format :: "int \<Rightarrow> int \<Rightarrow> string \<Rightarrow> string"
  pt_current_step :: int
  pt_start_time :: "rat option"
  pt_closed :: bool

definition default_step_format :: "int \<Rightarrow> int \<Rightarrow> string \<Rightarrow> string" where
  "default_step_format step tot description =
     ''Step '' @ str_int step @ ''/'' @ str_int tot @ '': '' @ description"

definition PulseTask_init :: "string \<Rightarrow> int \<Rightarrow> (int \<Rightarrow> int \<Rightarrow> string \<Rightarrow> string) \<Rightarrow> PulseTask" where
  "PulseTask_init task_name total_steps step_format =
     \<lparr>pt_task_name = task_name, pt_total_steps = total_steps, pt_step_format = step_format,
      pt_current_step = 0, pt_start_time = None, pt_closed = False\<rparr>"

definition PulseTask_enter :: "(PulseTask \<times> world, unit) prog" where
  "PulseTask_enter =
     bind (on_world time_now) (\<lambda>t.
     bind get_self (\<lambda>self.
     bind (set_self (self\<lparr>pt_start_time := Some t\<rparr>)) (\<lambda>_.
     on_world (pulse_state_update_progress (pt_task_name self) ''Starting...'' 0
                 None None None))))"

definition PulseTask_close :: "(PulseTask \<times> world, unit) prog" where
  "PulseTask_close =
     bind get_self (\<lambda>self.
     if \<not> pt_closed self \<and> (case pt_start_time self of None \<Rightarrow> False | Some t \<Rightarrow> t \<noteq> 0)
     then bind (set_self (self\<lparr>pt_closed := True\<rparr>)) (\<lambda>_.
          on_world (pulse_state_complete_task (pt_task_name self)))
     else return ())"

definition step_ratio :: "PulseTask \<Rightarrow> rat" where
  "step_ratio self =
     (if pt_total_steps self > 0
      then int_truediv (pt_current_step self) (pt_total_steps self) else 0)"

text \<open>
  \<^verbatim>\<open>__exit__(exc_type, exc_val, exc_tb)\<close>: the argument is \<^verbatim>\<open>None\<close> on a normal exit,
  else \<^verbatim>\<open>exc_type.__name__\<close> and \<^verbatim>\<open>str(exc_val)\<close>.
\<close>

definition PulseTask_exit :: "(string \<times> string) option \<Rightarrow> (PulseTask \<times> world, unit) prog" where
  "PulseTask_exit exc =
     bind PulseTask_close (\<lambda>_.
     case exc of
       None \<Rightarrow> return ()
     | Some (name, text) \<Rightarrow>
         bind get_self (\<lambda>self.
         on_world (pulse_state_update_progress (pt_task_name self) ''Error occurred''
                     (step_ratio self) None (Some (name @ '': '' @ text)) None)))"

definition step :: "string \<Rightarrow> rat option \<Rightarrow> (PulseTask \<times> world, unit) prog" where
  "step description progress =
     bind get_self (\<lambda>self.
     if pt_closed self then return ()
     else
       bind (set_self (self\<lparr>pt_current_step := pt_current_step self + 1\<rparr>)) (\<lambda>_.
       bind get_self (\<lambda>self.
       on_world (pulse_state_update_progress (pt_task_name self)
         (pt_step_format self (pt_current_step self) (pt_total_steps self) description)
         (case progress of None \<Rightarrow> step_ratio self | Some p \<Rightarrow> p)
         None None None))))"

definition PulseTask_update_progress ::
  "rat \<Rightarrow> string option \<Rightarrow> (PulseTask \<times> world, unit) prog" where
  "PulseTask_update_progress progress description =
     bind get_self (\<lambda>self.
     if pt_closed self then return ()
     else
       on_world (pulse_state_update_progress (pt_task_name self)
         (str_or description
            (''Step '' @ str_int (pt_current_step self) @ ''/''
               @ str_int (pt_total_steps self)))
         progress None None None))"

text \<open>The \<^verbatim>\<open>with\<close> statement around a body: \<^verbatim>\<open>__exit__\<close> returns \<^verbatim>\<open>None\<close>, so an
  exception of the body goes on after it.\<close>

definition with_task :: "(PulseTask \<times> world, 'a) prog \<Rightarrow> (PulseTask \<times> world, 'a) prog" where
  "with_task body s =
     (case PulseTask_enter s of
        (Raise e, s1) \<Rightarrow> (Raise e, s1)
      | (Return _, s1) \<Rightarrow>
          (case body s1 of
             (Return x, s2) \<Rightarrow>
               (case PulseTask_exit None s2 of
                  (Return _, s3) \<Rightarrow> (Return x, s3)
                | (Raise e, s3) \<Rightarrow> (Raise e, s3))
           | (Raise (Exn name text), s2) \<Rightarrow>
               (case PulseTask_exit (Some (name, text)) s2 of
                  (Return _, s3) \<Rightarrow> (Raise (Exn name text), s3)
                | (Raise e, s3) \<Rightarrow> (Raise e, s3))))"

section \<open>Observations on the environment\<close>

text \<open>A field of the dict held by the progress file, and the entries of the history file.\<close>

definition progress_field :: "world \<Rightarrow> string \<Rightarrow> json option" where
  "progress_field w key =
     (case files w PROGRESS_FILE of Document (JDict kvs) \<Rightarrow> map_of kvs key | _ \<Rightarrow> None)"

definition history_entries :: "world \<Rightarrow> json list" where
  "history_entries w =
     (case files w HISTORY_FILE of
        Document (JDict kvs) \<Rightarrow>
          (case map_of kvs ''completed_tasks'' of Some (JList es) \<Rightarrow> es | _ \<Rightarrow> [])
      | _ \<Rightarrow> [])"

fun entry_name :: "json \<Rightarrow> json" where
  "entry_name (JDict kvs) = (case map_of kvs ''task_name'' of Some v \<Rightarrow> v | None \<Rightarrow> JNull)"
| "entry_name e = JNull"

text \<open>How often \<^verbatim>\<open>pulse_state.complete_task\<close> has been called.\<close>

fun is_complete_task :: "call \<Rightarrow> bool" where
  "is_complete_task (Call_complete_task name) = True"
| "is_complete_task (Call_update_progress name) = False"

definition completions :: "world \<Rightarrow> nat" where
  "completions w = length (filter is_complete_task (calls w))"

text \<open>
  The store as its own writes leave it: the progress file is absent, unreadable, not JSON,
  or a dict whose \<^verbatim>\<open>started_at\<close> is null or a timestamp; the history file is a dict whose
  \<^verbatim>\<open>completed_tasks\<close> is a list.
\<close>

fun started_ok :: "json option \<Rightarrow> bool" where
  "started_ok None = True"
| "started_ok (Some JNull) = True"
| "started_ok (Some (JTime t)) = True"
| "started_ok (Some v) = False"

fun progress_ok :: "file_state \<Rightarrow> bool" where
  "progress_ok (Document (JDict kvs)) = started_ok (map_of kvs ''started_at'')"
| "progress_ok (Document j) = False"
| "progress_ok (Undecodable text) = False"
| "progress_ok f = True"

fun history_ok :: "file_state \<Rightarrow> bool" where
  "history_ok (Document (JDict kvs)) =
     (case map_of kvs ''completed_tasks'' of Some (JList es) \<Rightarrow> True | _ \<Rightarrow> False)"
| "history_ok f = False"

definition store_ok :: "world \<Rightarrow> bool" where
  "store_ok w = (progress_ok (files w PROGRESS_FILE) \<and> history_ok (files w HISTORY_FILE))"

text \<open>
  A progress file that \<^verbatim>\<open>_read_safe\<close> turns into a dict, the \<^verbatim>\<open>started_at\<close> that
  \<^verbatim>\<open>_get_started_at\<close> then finds, the record that \<^verbatim>\<open>update_progress\<close> writes and the
  history entry that \<^verbatim>\<open>complete_task\<close> inserts, all read off the environment in which
  the call starts.
\<close>

fun readable :: "file_state \<Rightarrow> bool" where
  "readable (Document (JDict kvs)) = True"
| "readable (Document j) = False"
| "readable (Undecodable text) = False"
| "readable f = True"

definition stored_started_at :: "world \<Rightarrow> json" where
  "stored_started_at w =
     (case progress_field w ''started_at'' of Some v \<Rightarrow> v | None \<Rightarrow> JNull)"

definition written_record ::
  "world \<Rightarrow> string \<Rightarrow> string \<Rightarrow> rat \<Rightarrow> int option \<Rightarrow> string option \<Rightarrow> int option \<Rightarrow> json" where
  "written_record w task_name current_step progress eta_seconds error pid = JDict
     [(''active'', JBool True),
      (''task_name'', JStr task_name),
      (''current_step'', JStr current_step),
      (''progress'', JFloat (max 0 (min 1 progress))),
      (''eta_seconds'', opt_int eta_seconds),
      (''started_at'', if truthy (stored_started_at w) then stored_started_at w
                       else JTime (clock w (ticks w))),
      (''last_update'', JTime (clock w (ticks w))),
      (''error'', opt_str error),
      (''pid'', JInt (case pid of None \<Rightarrow> os_pid w
                      | Some p \<Rightarrow> if p \<noteq> 0 then p else os_pid w))]"

definition duration_of :: "world \<Rightarrow> json" where
  "duration_of w =
     (case stored_started_at w of
        JTime t \<Rightarrow> JInt (py_int (clock w (Suc (ticks w)) - t))
      | _ \<Rightarrow> JNull)"

definition new_entry :: "world \<Rightarrow> string \<Rightarrow> json" where
  "new_entry w name = JDict
     [(''task_name'', JStr name), (''completed_at'', JTime (clock w (ticks w))),
      (''duration_seconds'', duration_of w)]"

text \<open>
  What a reader in another process gets from a state file: the widget reads it with the
  same \<^verbatim>\<open>_read_safe\<close>. The environments that a sequence of calls passes through, the
  first one included, and what a reader gets in each of them.
\<close>

definition reader_sees :: "path \<Rightarrow> world \<Rightarrow> json result" where
  "reader_sees filepath w = fst (read_safe filepath w)"

fun states_through :: "fs_call list \<Rightarrow> world \<Rightarrow> world list" where
  "states_through [] w = [w]"
| "states_through (c # cs) w = w # states_through cs (perform c w)"

definition observations :: "path \<Rightarrow> fs_call list \<Rightarrow> world \<Rightarrow> json result list" where
  "observations filepath cs w = map (reader_sees filepath) (states_through cs w)"

text \<open>
  The calls that changed a state file between two environments, in the order made, read
  off the log. Such calls are in place when they come in pairs, an \<^verbatim>\<open>open(filepath, 'w')\<close>
  followed by the \<^verbatim>\<open>json.dump\<close> into the same file. An operation writes in place when
  the log has grown by calls in place and the files it leaves are those that these calls
  produce.
\<close>

definition calls_made :: "world \<Rightarrow> world \<Rightarrow> fs_call list" where
  "calls_made w w' = rev (take (length (writes w') - length (writes w)) (writes w'))"

fun in_place :: "fs_call list \<Rightarrow> bool" where
  "in_place [] = True"
| "in_place (Open_w p # Json_dump q d # cs) = (p = q \<and> in_place cs)"
| "in_place cs = False"

definition in_place_between :: "world \<Rightarrow> world \<Rightarrow> bool" where
  "in_place_between w w' =
     (let cs = calls_made w w'
      in writes w' = rev cs @ writes w \<and> in_place cs \<and> files w' = files (fold perform cs w))"

definition writes_in_place :: "(world, 'a) prog \<Rightarrow> world \<Rightarrow> bool" where
  "writes_in_place m w = in_place_between w (snd (m w))"

text \<open>
  The write that the specification asks for, to compare with: the document goes to a
  temporary file, and one \<^verbatim>\<open>os.replace\<close> puts it in the place of the state file.
\<close>

definition spec_atomic_write :: "path \<Rightarrow> json \<Rightarrow> fs_call list" where
  "spec_atomic_write filepath data = [Os_replace filepath data]"

text \<open>A process that starts with no state files; its clock reads 10, 20, 30, ...\<close>

definition fresh_world :: world where
  "fresh_world =
     \<lparr>files = (\<lambda>p. Missing), clock = (\<lambda>i. 10 * of_nat (Suc i)), ticks = 0, os_pid = 4242,
      writes = [], calls = []\<rparr>"

definition booted :: world where
  "booted = snd (ensure_files_exist fresh_world)"

text \<open>Tasks completed one after the other.\<close>

fun complete_all :: "string list \<Rightarrow> (world, unit) prog" where
  "complete_all [] = return ()"
| "complete_all (name # names) = bind (complete_task name) (\<lambda>_. complete_all names)"

text \<open>\<^verbatim>\<open>state.get(key)\<close> on the dict of the progress file.\<close>

definition record_get :: "world \<Rightarrow> string \<Rightarrow> json" where
  "record_get w key = (case progress_field w key of Some v \<Rightarrow> v | None \<Rightarrow> JNull)"

text \<open>
  Two environments to evaluate on: an active record with an error, last updated at 40 and
  read when the clock shows 510; and state files that all hold text that is not JSON.
\<close>

definition stale_world :: world where
  "stale_world = booted\<lparr>files := (files booted)(PROGRESS_FILE := Document (JDict
     [(''active'', JBool True), (''task_name'', JStr ''T''),
      (''current_step'', JStr ''1/1: 3/9it''), (''progress'', JFloat (1/3)),
      (''eta_seconds'', JInt 20), (''started_at'', JTime 10), (''last_update'', JTime 40),
      (''error'', JStr ''boom''), (''pid'', JInt 4242)])),
     ticks := 50\<rparr>"

definition corrupt_world :: world where
  "corrupt_world = booted\<lparr>files := (\<lambda>p. Malformed)\<rparr>"

text \<open>
  What the body of a \<^verbatim>\<open>with pulse_task(...) as task:\<close> block does with the session: a list
  of calls on it, then a normal end or an exception of the body's own.
\<close>

datatype task_cmd =
    Cmd_step string "rat option"
  | Cmd_update_progress rat "string option"
  | Cmd_close

fun run_cmd :: "task_cmd \<Rightarrow> (PulseTask \<times> world, unit) prog" where
  "run_cmd (Cmd_step description progress) = step description progress"
| "run_cmd (Cmd_update_progress progress description) =
     PulseTask_update_progress progress description"
| "run_cmd Cmd_close = PulseTask_close"

fun run_cmds :: "task_cmd list \<Rightarrow> (PulseTask \<times> world, unit) prog" where
  "run_cmds [] = return ()"
| "run_cmds (c # cs) = bind (run_cmd c) (\<lambda>_. run_cmds cs)"

definition session_body :: "task_cmd list \<Rightarrow> exn option \<Rightarrow> (PulseTask \<times> world, unit) prog" where
  "session_body cmds failure =
     bind (run_cmds cmds) (\<lambda>_. case failure of None \<Rightarrow> return () | Some e \<Rightarrow> raise e)"

text \<open>\<^verbatim>\<open>close()\<close> called \<open>k\<close> times more, whatever each call returns.\<close>

fun closes :: "nat \<Rightarrow> PulseTask \<times> world \<Rightarrow> PulseTask \<times> world" where
  "closes 0 s = s"
| "closes (Suc k) s = closes k (snd (PulseTask_close s))"

text \<open>
  The locals \<^verbatim>\<open>elapsed\<close> and \<^verbatim>\<open>speed\<close> of \<^verbatim>\<open>_calculate_eta\<close> when it reads the clock in
  \<open>w\<close>, and the condition that its conversions and divisions stay within the range of a
  double; the same for the divisions of \<^verbatim>\<open>_report_progress\<close>.
\<close>

definition eta_elapsed :: "'a PulseProgress \<Rightarrow> world \<Rightarrow> rat" where
  "eta_elapsed self w = float_sub (clock w (ticks w)) (pp_start_t self)"

definition eta_speed :: "'a PulseProgress \<Rightarrow> world \<Rightarrow> rat" where
  "eta_speed self w =
     (if 0 < eta_elapsed self w then float_div (float_of_int (pp_n self)) (eta_elapsed self w)
      else 0)"

definition eta_in_range :: "'a PulseProgress \<Rightarrow> int \<Rightarrow> world \<Rightarrow> bool" where
  "eta_in_range self tot w =
     (finite_double (float_of_int (pp_n self)) \<and>
      finite_double (float_of_int (tot - pp_n self)) \<and>
      finite_double (eta_speed self w) \<and>
      finite_double (float_div (float_of_int (tot - pp_n self)) (eta_speed self w)))"

definition report_in_range :: "'a PulseProgress \<Rightarrow> world \<Rightarrow> bool" where
  "report_in_range self w =
     (case pp_total self of
        None \<Rightarrow> True
      | Some tot \<Rightarrow>
          tot = 0 \<or> (finite_double (int_truediv (pp_n self) tot) \<and>
                     (pp_n self \<le> 0 \<or> eta_elapsed self w \<le> 0 \<or> eta_in_range self tot w)))"

text \<open>
  A wrapper with five items in all, two of them counted, started when the clock read 10;
  and the environment that \<^verbatim>\<open>PulseProgress(total=5, task="Load")\<close> leaves behind.
\<close>

definition sample_tracker :: "nat PulseProgress" where
  "sample_tracker =
     \<lparr>pp_iterable = NoIterable, pp_desc = ''Load'', pp_step = ''1/1'', pp_total = Some 5,
      pp_unit = ''it'', pp_leave = True, pp_mininterval = 1/10, pp_disable = False, pp_n = 2,
      pp_start_t = 10, pp_last_update_t = 10\<rparr>"

definition load_world :: world where
  "load_world = snd (PulseProgress_init (NoIterable :: nat iterable) None (Some 5) (Some ''Load'')
     None ''it'' True (1/10) False 0 booted)"

text \<open>The environment that \<^verbatim>\<open>PulseProgress([], task="Load")\<close> leaves behind.\<close>

definition empty_world :: world where
  "empty_world = snd (PulseProgress_init (Sized ([] :: nat list)) None None (Some ''Load'') None
     ''it'' True (1/10) False 0 booted)"

text \<open>
  A session whose \<^verbatim>\<open>start_time\<close> is truthy, and the number of \<^verbatim>\<open>complete_task\<close> calls
  that its \<^verbatim>\<open>close()\<close> still has to make.
\<close>

definition started :: "PulseTask \<Rightarrow> bool" where
  "started self = (case pt_start_time self of None \<Rightarrow> False | Some t \<Rightarrow> t \<noteq> 0)"

definition pending :: "PulseTask \<Rightarrow> nat" where
  "pending self = (if started self \<and> \<not> pt_closed self then 1 else 0)"

section \<open>The store: what a call returns and writes\<close>

lemmas prog_defs = return_def raise_def lift_def bind_def

lemma booted_files:
  "files booted PROGRESS_FILE = Document inactive_template"
  "files booted HISTORY_FILE = Document (JDict [(''completed_tasks'', JList [])])"
  "files booted WIDGET_POSITION_FILE = Document (JDict [(''x'', JInt 100), (''y'', JInt 100)])"
  by (simp_all add: booted_def fresh_world_def ensure_files_exist_def prog_defs write_safe_def)

lemma store_ok_booted: "store_ok booted"
  by (simp add: store_ok_def booted_files inactive_template_def)

lemma stored_started_at_frame [simp]:
  "stored_started_at (w\<lparr>ticks := t\<rparr>) = stored_started_at w"
  "stored_started_at (w\<lparr>writes := ws\<rparr>) = stored_started_at w"
  "stored_started_at (w\<lparr>calls := cs\<rparr>) = stored_started_at w"
  by (simp_all add: stored_started_at_def progress_field_def)

lemma get_started_at_run:
  "readable (files w PROGRESS_FILE) \<Longrightarrow> get_started_at w = (Return (stored_started_at w), w)"
  by (cases "files w PROGRESS_FILE" rule: readable.cases)
     (auto simp: get_started_at_def read_safe_def prog_defs stored_started_at_def progress_field_def split: option.splits)

lemma update_progress_run:
  "readable (files w PROGRESS_FILE) \<Longrightarrow>
   update_progress tn cs p eta err pid w =
     (Return (), w\<lparr>files := (files w)(PROGRESS_FILE := Document (written_record w tn cs p eta err pid)),
                   ticks := Suc (ticks w),
                   writes := Json_dump PROGRESS_FILE (written_record w tn cs p eta err pid) #
                     Open_w PROGRESS_FILE # writes w\<rparr>)"
  unfolding update_progress_def
  apply (simp add: bind_def time_now_def )
  apply (subst get_started_at_run)
   apply simp
  apply (simp add: write_safe_def written_record_def split: option.splits)
  done


lemma history_okE:
  assumes "history_ok f"
  obtains kvs es where "f = Document (JDict kvs)" "map_of kvs ''completed_tasks'' = Some (JList es)"
  using assms by (cases f rule: history_ok.cases) (auto split: option.splits json.splits)

lemma progress_ok_readable: "progress_ok f \<Longrightarrow> readable f"
  by (cases f rule: progress_ok.cases) auto

lemma progress_ok_started:
  "progress_ok (files w PROGRESS_FILE) \<Longrightarrow> stored_started_at w = JNull \<or> (\<exists>t. stored_started_at w = JTime t)"
  apply (cases "files w PROGRESS_FILE" rule: progress_ok.cases)
  apply (auto simp: stored_started_at_def progress_field_def split: option.splits)
  subgoal for kvs v by (cases "Some v" rule: started_ok.cases) auto
  done

lemma read_safe_progress_run:
  "readable (files w PROGRESS_FILE) \<Longrightarrow> \<exists>kvs. read_safe PROGRESS_FILE w = (Return (JDict kvs), w) \<and> (case map_of kvs ''started_at'' of None \<Rightarrow> JNull | Some v \<Rightarrow> v) = stored_started_at w"
  by (cases "files w PROGRESS_FILE" rule: readable.cases)
     (auto simp: read_safe_def stored_started_at_def progress_field_def)

lemma calculate_duration_run:
  assumes "progress_ok (files w PROGRESS_FILE)"
  shows "calculate_duration w =
     (case stored_started_at w of
        JTime t \<Rightarrow> (Return (Some (py_int (clock w (ticks w) - t))), w\<lparr>ticks := Suc (ticks w)\<rparr>)
      | _ \<Rightarrow> (Return None, w))"
proof -
  from assms have "readable (files w PROGRESS_FILE)" by (rule progress_ok_readable)
  from read_safe_progress_run[OF this] obtain kvs where
    r: "read_safe PROGRESS_FILE w = (Return (JDict kvs), w)"
    and s: "(case map_of kvs ''started_at'' of None \<Rightarrow> JNull | Some v \<Rightarrow> v) = stored_started_at w"
    by blast
  from progress_ok_started[OF assms] show ?thesis
    by (auto simp: calculate_duration_def prog_defs r s time_now_def)
qed

lemma complete_task_run:
  assumes "store_ok w"
  shows "\<exists>kvs. files w HISTORY_FILE = Document (JDict kvs) \<and> complete_task name w =
     (Return (),
      w\<lparr>files := (files w)
           (HISTORY_FILE := Document (JDict (AList.update ''completed_tasks''
               (JList (take 10 (new_entry w name # history_entries w))) kvs)),
            PROGRESS_FILE := Document inactive_template),
        ticks := (if truthy (stored_started_at w) then Suc (Suc (ticks w)) else Suc (ticks w)),
        writes := Json_dump PROGRESS_FILE inactive_template # Open_w PROGRESS_FILE #
          Json_dump HISTORY_FILE (JDict (AList.update ''completed_tasks''
               (JList (take 10 (new_entry w name # history_entries w))) kvs)) #
          Open_w HISTORY_FILE # writes w\<rparr>)"
proof -
  from assms have p: "progress_ok (files w PROGRESS_FILE)" and h: "history_ok (files w HISTORY_FILE)"
    by (simp_all add: store_ok_def)
  from h obtain kvs es where f: "files w HISTORY_FILE = Document (JDict kvs)"
    and m: "map_of kvs ''completed_tasks'' = Some (JList es)"
    by (rule history_okE)
  from read_safe_progress_run[OF progress_ok_readable[OF p]] obtain pk where
    r: "read_safe PROGRESS_FILE w = (Return (JDict pk), w)" by blast
  have he: "history_entries w = es" by (simp add: history_entries_def f m)
  have rh: "read_safe HISTORY_FILE w = (Return (JDict kvs), w)" by (simp add: read_safe_def f)
  have p': "progress_ok (files (w\<lparr>ticks := Suc (ticks w)\<rparr>) PROGRESS_FILE)" using p by simp
  from progress_ok_started[OF p] have "complete_task name w =
     (Return (),
      w\<lparr>files := (files w)
           (HISTORY_FILE := Document (JDict (AList.update ''completed_tasks''
               (JList (take 10 (new_entry w name # history_entries w))) kvs)),
            PROGRESS_FILE := Document inactive_template),
        ticks := (if truthy (stored_started_at w) then Suc (Suc (ticks w)) else Suc (ticks w)),
        writes := Json_dump PROGRESS_FILE inactive_template # Open_w PROGRESS_FILE #
          Json_dump HISTORY_FILE (JDict (AList.update ''completed_tasks''
               (JList (take 10 (new_entry w name # history_entries w))) kvs)) #
          Open_w HISTORY_FILE # writes w\<rparr>)"
    unfolding complete_task_def
    by (auto simp: bind_def lift_def r rh time_now_def calculate_duration_run[OF p'] m he
        write_safe_def new_entry_def duration_of_def opt_int_def fun_upd_twist)
  with f show ?thesis by blast
qed


lemma complete_task_ok:
  assumes "store_ok w"
  obtains w' where "complete_task name w = (Return (), w')"
    "files w' PROGRESS_FILE = Document inactive_template"
    "history_entries w' = take 10 (new_entry w name # history_entries w)"
    "store_ok w'" "calls w' = calls w" "clock w' = clock w" "os_pid w' = os_pid w"
    "files w' WIDGET_POSITION_FILE = files w WIDGET_POSITION_FILE"
proof -
  from complete_task_run[OF assms, of name] obtain kvs where
    f: "files w HISTORY_FILE = Document (JDict kvs)" and
    c: "complete_task name w =
     (Return (),
      w\<lparr>files := (files w)
           (HISTORY_FILE := Document (JDict (AList.update ''completed_tasks''
               (JList (take 10 (new_entry w name # history_entries w))) kvs)),
            PROGRESS_FILE := Document inactive_template),
        ticks := (if truthy (stored_started_at w) then Suc (Suc (ticks w)) else Suc (ticks w)),
        writes := Json_dump PROGRESS_FILE inactive_template # Open_w PROGRESS_FILE #
          Json_dump HISTORY_FILE (JDict (AList.update ''completed_tasks''
               (JList (take 10 (new_entry w name # history_entries w))) kvs)) #
          Open_w HISTORY_FILE # writes w\<rparr>)" by blast
  show thesis
    by (rule that[OF c])
       (simp_all add: history_entries_def update_conv' store_ok_def inactive_template_def)
qed

lemma update_progress_ok:
  assumes "store_ok w"
  obtains w' where "update_progress tn cs p eta err pid w = (Return (), w')"
    "files w' PROGRESS_FILE = Document (written_record w tn cs p eta err pid)"
    "files w' HISTORY_FILE = files w HISTORY_FILE"
    "files w' WIDGET_POSITION_FILE = files w WIDGET_POSITION_FILE"
    "store_ok w'" "calls w' = calls w" "clock w' = clock w" "os_pid w' = os_pid w"
    "ticks w' = Suc (ticks w)"
proof -
  from assms have p: "progress_ok (files w PROGRESS_FILE)" and h: "history_ok (files w HISTORY_FILE)"
    by (simp_all add: store_ok_def)
  note u = update_progress_run[OF progress_ok_readable[OF p], of tn cs p eta err pid]
  show thesis
    apply (rule that[OF u])
    using h progress_ok_started[OF p]
    by (auto simp: store_ok_def written_record_def)
qed

lemma take_append_take: "take n (xs @ take n ys) = take n (xs @ ys)"
  by (simp add: min_def)

lemma entry_name_new_entry [simp]: "entry_name (new_entry w name) = JStr name"
  by (simp add: new_entry_def)

lemma complete_all_names:
  "store_ok w \<Longrightarrow>
   \<exists>w'. complete_all names w = (Return (), w') \<and> store_ok w' \<and>
     map entry_name (history_entries w') =
       (if names = [] then map entry_name (history_entries w)
        else take 10 (map JStr (rev names) @ map entry_name (history_entries w)))"
proof (induction names arbitrary: w)
  case Nil
  then show ?case by (simp add: return_def)
next
  case (Cons name names)
  from complete_task_ok[OF Cons.prems, of name] obtain w1 where
    c: "complete_task name w = (Return (), w1)" and
    e: "history_entries w1 = take 10 (new_entry w name # history_entries w)" and
    ok: "store_ok w1" by metis
  from Cons.IH[OF ok] obtain w' where
    r: "complete_all names w1 = (Return (), w')" and ok': "store_ok w'" and
    m: "map entry_name (history_entries w') =
       (if names = [] then map entry_name (history_entries w1)
        else take 10 (map JStr (rev names) @ map entry_name (history_entries w1)))" by blast
  have "map entry_name (history_entries w1) = take 10 (JStr name # map entry_name (history_entries w))"
    unfolding e take_map [symmetric] by simp
  then have "map entry_name (history_entries w') =
      take 10 (map JStr (rev (name # names)) @ map entry_name (history_entries w))"
    using m by (simp add: take_append_take del: take_Cons_numeral)
  then show ?case using r ok' c by (simp add: bind_def)
qed


section \<open>Completion and the bounded history\<close>

text \<open>
  C8. On a store as its own writes leave it, \<^verbatim>\<open>update_progress\<close> for a task followed
  by \<^verbatim>\<open>complete_task\<close> for it leaves the progress file holding the inactive template
  (\<^verbatim>\<open>active\<close> false, \<^verbatim>\<open>task_name\<close> null) and the task's name in the first history
  entry. Every \<^verbatim>\<open>complete_task\<close> puts exactly one new entry in front of the old ones
  and keeps the first ten, so the history never has more than ten entries; tasks
  completed one after the other leave the names of the last ten, newest first.
\<close>

theorem complete_task_archives:
  assumes "store_ok w"
  shows "(\<exists>w1 w2 e es.
            update_progress name cs p eta err pid w = (Return (), w1) \<and>
            complete_task name w1 = (Return (), w2) \<and>
            files w2 PROGRESS_FILE = Document inactive_template \<and>
            progress_field w2 ''active'' = Some (JBool False) \<and>
            progress_field w2 ''task_name'' = Some JNull \<and>
            history_entries w2 = e # es \<and> entry_name e = JStr name) \<and>
         (\<exists>w'. complete_task name w = (Return (), w') \<and>
            history_entries w' = take 10 (new_entry w name # history_entries w) \<and>
            entry_name (new_entry w name) = JStr name \<and>
            length (history_entries w') \<le> 10) \<and>
         (\<exists>w'. complete_all names w = (Return (), w') \<and>
            map entry_name (history_entries w') =
              (if names = [] then map entry_name (history_entries w)
               else take 10 (map JStr (rev names) @ map entry_name (history_entries w))))"
proof (intro conjI)
  from update_progress_ok[OF assms, of name cs p eta err pid] obtain w1 where
    u: "update_progress name cs p eta err pid w = (Return (), w1)" and ok1: "store_ok w1"
    by metis
  from complete_task_ok[OF ok1, of name] obtain w2 where
    c: "complete_task name w1 = (Return (), w2)" and
    f: "files w2 PROGRESS_FILE = Document inactive_template" and
    h: "history_entries w2 = take 10 (new_entry w1 name # history_entries w1)"
    by metis
  have "history_entries w2 = new_entry w1 name # take 9 (history_entries w1)"
    by (simp add: h)
  with u c f show "\<exists>w1 w2 e es.
            update_progress name cs p eta err pid w = (Return (), w1) \<and>
            complete_task name w1 = (Return (), w2) \<and>
            files w2 PROGRESS_FILE = Document inactive_template \<and>
            progress_field w2 ''active'' = Some (JBool False) \<and>
            progress_field w2 ''task_name'' = Some JNull \<and>
            history_entries w2 = e # es \<and> entry_name e = JStr name"
    by (simp add: progress_field_def inactive_template_def)
next
  from complete_task_ok[OF assms, of name] obtain w' where
    "complete_task name w = (Return (), w')"
    "history_entries w' = take 10 (new_entry w name # history_entries w)"
    by metis
  then show "\<exists>w'. complete_task name w = (Return (), w') \<and>
            history_entries w' = take 10 (new_entry w name # history_entries w) \<and>
            entry_name (new_entry w name) = JStr name \<and>
            length (history_entries w') \<le> 10"
    by simp
next
  from complete_all_names[OF assms, of names]
  show "\<exists>w'. complete_all names w = (Return (), w') \<and>
            map entry_name (history_entries w') =
              (if names = [] then map entry_name (history_entries w)
               else take 10 (map JStr (rev names) @ map entry_name (history_entries w)))"
    by blast
qed

theorem complete_task_archives_witness:
  "store_ok booted \<and>
   (\<exists>w'. complete_all [''a'', ''b'', ''c'', ''d'', ''e'', ''f'', ''g'', ''h'', ''i'', ''j'',
                         ''k'', ''l''] booted = (Return (), w') \<and>
      map entry_name (history_entries w') =
        map JStr [''l'', ''k'', ''j'', ''i'', ''h'', ''g'', ''f'', ''e'', ''d'', ''c''])"
  using complete_task_archives [OF store_ok_booted,
      of _ _ _ _ _ _ "[''a'', ''b'', ''c'', ''d'', ''e'', ''f'', ''g'', ''h'', ''i'', ''j'',
                       ''k'', ''l'']"]
  by (simp add: store_ok_booted)

section \<open>The environments evaluated on\<close>

lemma booted_eq:
  "booted = fresh_world\<lparr>files := (\<lambda>p. Missing)
       (PROGRESS_FILE := Document inactive_template,
        HISTORY_FILE := Document (JDict [(''completed_tasks'', JList [])]),
        WIDGET_POSITION_FILE := Document (JDict [(''x'', JInt 100), (''y'', JInt 100)])),
      writes := [Json_dump WIDGET_POSITION_FILE (JDict [(''x'', JInt 100), (''y'', JInt 100)]),
                 Open_w WIDGET_POSITION_FILE,
                 Json_dump HISTORY_FILE (JDict [(''completed_tasks'', JList [])]),
                 Open_w HISTORY_FILE,
                 Json_dump PROGRESS_FILE inactive_template, Open_w PROGRESS_FILE]\<rparr>"
  by (simp add: booted_def fresh_world_def ensure_files_exist_def prog_defs write_safe_def)

lemma booted_env [simp]:
  "clock booted i = 10 * of_nat (Suc i)" "ticks booted = 0" "os_pid booted = 4242"
  "calls booted = []"
  by (simp_all add: booted_eq fresh_world_def)

lemma readable_booted: "readable (files booted PROGRESS_FILE)"
  by (simp add: booted_files inactive_template_def)


section \<open>The stale-progress reaper\<close>

lemma clear_stale_inactive:
  assumes "readable (files w PROGRESS_FILE)" "\<not> truthy (record_get w ''active'')"
  shows "clear_stale_progress max_idle w = (Return (), w)"
  using assms
  by (cases "files w PROGRESS_FILE" rule: readable.cases)
     (auto simp: clear_stale_progress_def try_except_log_def prog_defs get_progress_def
        read_safe_def record_get_def progress_field_def split: option.splits)

lemma clear_stale_recent:
  assumes "truthy (record_get w ''active'')" "progress_field w ''last_update'' = Some (JTime t)"
     "clock w (ticks w) - t \<le> of_int max_idle"
  shows "clear_stale_progress max_idle w = (Return (), w\<lparr>ticks := Suc (ticks w)\<rparr>)"
  using assms
  by (auto simp: clear_stale_progress_def try_except_log_def prog_defs get_progress_def
        read_safe_def record_get_def progress_field_def time_now_def
        split: option.splits file_state.splits json.splits)

lemma clear_stale_old:
  assumes "truthy (record_get w ''active'')" "progress_field w ''last_update'' = Some (JTime t)"
     "of_int max_idle < clock w (ticks w) - t" "progress_field w ''progress'' = Some pr"
  shows "clear_stale_progress max_idle w = (Return (),
     perform (Json_dump PROGRESS_FILE (JDict
             [(''active'', JBool False),
              (''task_name'', record_get w ''task_name''),
              (''current_step'', record_get w ''current_step''),
              (''progress'', pr),
              (''eta_seconds'', JNull),
              (''started_at'', JNull),
              (''last_update'', JNull),
              (''error'', record_get w ''error''),
              (''pid'', JNull)]))
       (perform (Open_w PROGRESS_FILE) (w\<lparr>ticks := Suc (ticks w)\<rparr>)))"
  using assms
  by (auto simp: clear_stale_progress_def try_except_log_def prog_defs get_progress_def
        read_safe_def record_get_def progress_field_def time_now_def write_safe_def
        split: option.splits file_state.splits json.splits)


text \<open>
  C10. Take a progress record that is active (its \<^verbatim>\<open>active\<close> is truthy), has a timestamp
  in \<^verbatim>\<open>last_update\<close> and a \<^verbatim>\<open>progress\<close> field. If the time since \<^verbatim>\<open>last_update\<close>
  exceeds the idle threshold, one call of \<^verbatim>\<open>clear_stale_progress\<close> rewrites it with
  \<^verbatim>\<open>active\<close> false and \<^verbatim>\<open>eta_seconds\<close>, \<^verbatim>\<open>started_at\<close>, \<^verbatim>\<open>last_update\<close> null, and
  \<^verbatim>\<open>task_name\<close>, \<^verbatim>\<open>current_step\<close>, \<^verbatim>\<open>progress\<close>, \<^verbatim>\<open>error\<close> as they were; a second call
  on the result changes nothing at all. A record that is not active is left as it is,
  and so are the files when the record was updated within the threshold.
\<close>

theorem clear_stale_progress_reaps:
  "(truthy (record_get w ''active'') \<and> progress_field w ''last_update'' = Some (JTime t) \<and>
    progress_field w ''progress'' = Some pr \<and> of_int max_idle < clock w (ticks w) - t \<longrightarrow>
      (\<exists>w1. clear_stale_progress max_idle w = (Return (), w1) \<and>
         progress_field w1 ''active'' = Some (JBool False) \<and>
         progress_field w1 ''eta_seconds'' = Some JNull \<and>
         progress_field w1 ''started_at'' = Some JNull \<and>
         progress_field w1 ''last_update'' = Some JNull \<and>
         record_get w1 ''task_name'' = record_get w ''task_name'' \<and>
         record_get w1 ''current_step'' = record_get w ''current_step'' \<and>
         progress_field w1 ''progress'' = progress_field w ''progress'' \<and>
         record_get w1 ''error'' = record_get w ''error'' \<and>
         clear_stale_progress max_idle w1 = (Return (), w1))) \<and>
   (readable (files w PROGRESS_FILE) \<and> \<not> truthy (record_get w ''active'') \<longrightarrow>
      clear_stale_progress max_idle w = (Return (), w)) \<and>
   (truthy (record_get w ''active'') \<and> progress_field w ''last_update'' = Some (JTime t) \<and>
    clock w (ticks w) - t \<le> of_int max_idle \<longrightarrow>
      (\<exists>w1. clear_stale_progress max_idle w = (Return (), w1) \<and> files w1 = files w \<and>
         writes w1 = writes w))"
proof (intro conjI impI)
  assume a: "truthy (record_get w ''active'') \<and> progress_field w ''last_update'' = Some (JTime t) \<and>
    progress_field w ''progress'' = Some pr \<and> of_int max_idle < clock w (ticks w) - t"
  define w1 where "w1 = snd (clear_stale_progress max_idle w)"
  from a have r: "clear_stale_progress max_idle w = (Return (), w1)"
    and f: "files w1 PROGRESS_FILE = Document (JDict
             [(''active'', JBool False),
              (''task_name'', record_get w ''task_name''),
              (''current_step'', record_get w ''current_step''),
              (''progress'', pr),
              (''eta_seconds'', JNull),
              (''started_at'', JNull),
              (''last_update'', JNull),
              (''error'', record_get w ''error''),
              (''pid'', JNull)])"
    unfolding w1_def by (simp_all add: clear_stale_old [of w t max_idle pr])
  have again: "clear_stale_progress max_idle w1 = (Return (), w1)"
    by (rule clear_stale_inactive) (simp_all add: f record_get_def progress_field_def)
  from a r f again show "\<exists>w1. clear_stale_progress max_idle w = (Return (), w1) \<and>
         progress_field w1 ''active'' = Some (JBool False) \<and>
         progress_field w1 ''eta_seconds'' = Some JNull \<and>
         progress_field w1 ''started_at'' = Some JNull \<and>
         progress_field w1 ''last_update'' = Some JNull \<and>
         record_get w1 ''task_name'' = record_get w ''task_name'' \<and>
         record_get w1 ''current_step'' = record_get w ''current_step'' \<and>
         progress_field w1 ''progress'' = progress_field w ''progress'' \<and>
         record_get w1 ''error'' = record_get w ''error'' \<and>
         clear_stale_progress max_idle w1 = (Return (), w1)"
    by (simp add: record_get_def progress_field_def)
next
  assume "readable (files w PROGRESS_FILE) \<and> \<not> truthy (record_get w ''active'')"
  then show "clear_stale_progress max_idle w = (Return (), w)"
    by (simp add: clear_stale_inactive)
next
  assume "truthy (record_get w ''active'') \<and> progress_field w ''last_update'' = Some (JTime t) \<and>
    clock w (ticks w) - t \<le> of_int max_idle"
  then show "\<exists>w1. clear_stale_progress max_idle w = (Return (), w1) \<and> files w1 = files w \<and>
         writes w1 = writes w"
    by (simp add: clear_stale_recent [of w t max_idle])
qed

theorem clear_stale_progress_reaps_witness:
  "(truthy (record_get stale_world ''active'') \<and>
    progress_field stale_world ''last_update'' = Some (JTime 40) \<and>
    progress_field stale_world ''progress'' = Some (JFloat (1/3)) \<and>
    of_int 300 < clock stale_world (ticks stale_world) - 40 \<and>
    (\<exists>w1. clear_stale_progress 300 stale_world = (Return (), w1) \<and>
       progress_field w1 ''active'' = Some (JBool False) \<and>
       progress_field w1 ''progress'' = Some (JFloat (1/3)) \<and>
       record_get w1 ''error'' = JStr ''boom'' \<and>
       clear_stale_progress 300 w1 = (Return (), w1))) \<and>
   (readable (files booted PROGRESS_FILE) \<and> \<not> truthy (record_get booted ''active'') \<and>
    clear_stale_progress 300 booted = (Return (), booted)) \<and>
   (clock stale_world (ticks stale_world) - 40 \<le> of_int 1000 \<and>
    (\<exists>w1. clear_stale_progress 1000 stale_world = (Return (), w1) \<and>
       files w1 = files stale_world))"
proof -
  have s: "truthy (record_get stale_world ''active'')"
    "progress_field stale_world ''last_update'' = Some (JTime 40)"
    "progress_field stale_world ''progress'' = Some (JFloat (1/3))"
    "record_get stale_world ''error'' = JStr ''boom''"
    "clock stale_world (ticks stale_world) = 510"
    by (simp_all add: stale_world_def record_get_def progress_field_def)
  have b: "readable (files booted PROGRESS_FILE)" "\<not> truthy (record_get booted ''active'')"
    by (simp_all add: booted_files inactive_template_def record_get_def progress_field_def)
  show ?thesis
    using clear_stale_progress_reaps [of stale_world 40 "JFloat (1/3)" 300]
      clear_stale_progress_reaps [of booted 0 JNull 300]
      clear_stale_progress_reaps [of stale_world 40 JNull 1000]
    by (auto simp: s b)
qed


section \<open>The shape of the store is kept\<close>

text \<open>
  Started on an empty directory the store has the shape \<open>store_ok\<close>, and every operation
  of the store and the reaper keeps it.
\<close>

lemma clear_stale_files:
  "files (snd (clear_stale_progress m w)) = files w \<or>
   (\<exists>a b c d. files (snd (clear_stale_progress m w)) = (files w)(PROGRESS_FILE := Document (JDict
             [(''active'', JBool False), (''task_name'', a), (''current_step'', b),
              (''progress'', c), (''eta_seconds'', JNull), (''started_at'', JNull),
              (''last_update'', JNull), (''error'', d), (''pid'', JNull)])))"
  unfolding clear_stale_progress_def try_except_log_def get_progress_def
  by (auto simp: prog_defs read_safe_def time_now_def write_safe_def
      split: prod.splits result.splits file_state.splits json.splits option.splits if_splits)


lemma store_ok_kept:
  assumes "store_ok w"
  shows "store_ok (snd (update_progress tn cs p eta err pid w))"
    and "store_ok (snd (complete_task name w))"
    and "store_ok (snd (clear_stale_progress m w))"
    and "store_ok (snd (save_widget_position x y w))"
proof -
  from update_progress_ok [OF assms, of tn cs p eta err pid]
  show "store_ok (snd (update_progress tn cs p eta err pid w))" by (metis snd_conv)
  from complete_task_ok [OF assms, of name]
  show "store_ok (snd (complete_task name w))" by (metis snd_conv)
  from clear_stale_files [of m w] assms
  show "store_ok (snd (clear_stale_progress m w))"
    by (auto simp: store_ok_def)
  from assms show "store_ok (snd (save_widget_position x y w))"
    by (simp add: save_widget_position_def write_safe_def store_ok_def)
qed

lemma store_ok_initial:
  "files w = (\<lambda>p. Missing) \<Longrightarrow> store_ok (snd (ensure_files_exist w))"
  by (simp add: ensure_files_exist_def prog_defs write_safe_def store_ok_def
      inactive_template_def)

section \<open>What \<^verbatim>\<open>update_progress\<close> persists\<close>

lemma progress_field_written:
  "files w' PROGRESS_FILE = Document (written_record w tn cs p eta err pid) \<Longrightarrow>
   progress_field w' ''active'' = Some (JBool True) \<and>
   progress_field w' ''task_name'' = Some (JStr tn) \<and>
   progress_field w' ''current_step'' = Some (JStr cs) \<and>
   progress_field w' ''progress'' = Some (JFloat (max 0 (min 1 p))) \<and>
   progress_field w' ''eta_seconds'' = Some (opt_int eta) \<and>
   progress_field w' ''started_at'' =
     Some (if truthy (stored_started_at w) then stored_started_at w else JTime (clock w (ticks w))) \<and>
   progress_field w' ''last_update'' = Some (JTime (clock w (ticks w))) \<and>
   progress_field w' ''error'' = Some (opt_str err)"
  by (simp add: progress_field_def written_record_def)

lemma update_progress_readable:
  assumes "readable (files w PROGRESS_FILE)"
  obtains w' where "update_progress tn cs p eta err pid w = (Return (), w')"
    "files w' PROGRESS_FILE = Document (written_record w tn cs p eta err pid)"
    "readable (files w' PROGRESS_FILE)" "clock w' = clock w" "ticks w' = Suc (ticks w)"
  by (rule that [OF update_progress_run [OF assms]]) (simp_all add: written_record_def)

text \<open>
  C2, as the code has it. Every \<^verbatim>\<open>update_progress\<close> on a readable progress file persists
  exactly its own \<^verbatim>\<open>error\<close> argument: a call without one writes null, whatever an
  earlier call had set. \<^verbatim>\<open>complete_task\<close> writes null as well.
\<close>

theorem update_progress_error_overwritten:
  "(readable (files w PROGRESS_FILE) \<longrightarrow>
      (\<exists>w'. update_progress tn cs p eta err pid w = (Return (), w') \<and>
         progress_field w' ''error'' = Some (opt_str err))) \<and>
   (readable (files w PROGRESS_FILE) \<longrightarrow>
      (\<exists>w'. update_progress tn cs p eta None pid w = (Return (), w') \<and>
         progress_field w' ''error'' = Some JNull)) \<and>
   (store_ok w \<longrightarrow>
      (\<exists>w'. complete_task tn w = (Return (), w') \<and> progress_field w' ''error'' = Some JNull))"
proof (intro conjI impI)
  assume r: "readable (files w PROGRESS_FILE)"
  from update_progress_readable [OF r, of tn cs p eta err pid]
  show "\<exists>w'. update_progress tn cs p eta err pid w = (Return (), w') \<and>
         progress_field w' ''error'' = Some (opt_str err)"
    by (metis progress_field_written)
  from update_progress_readable [OF r, of tn cs p eta None pid]
  show "\<exists>w'. update_progress tn cs p eta None pid w = (Return (), w') \<and>
         progress_field w' ''error'' = Some JNull"
    by (metis progress_field_written opt_str_def option.simps(4))
next
  assume "store_ok w"
  from complete_task_ok [OF this, of tn] obtain w' where
    "complete_task tn w = (Return (), w')" "files w' PROGRESS_FILE = Document inactive_template"
    by metis
  then show "\<exists>w'. complete_task tn w = (Return (), w') \<and> progress_field w' ''error'' = Some JNull"
    by (simp add: progress_field_def inactive_template_def)
qed

theorem update_progress_error_overwritten_witness:
  "readable (files booted PROGRESS_FILE) \<and> store_ok booted \<and>
   (\<exists>w'. update_progress ''T'' ''s'' (1/2) None (Some ''boom'') None booted = (Return (), w') \<and>
      progress_field w' ''error'' = Some (JStr ''boom'')) \<and>
   (\<exists>w'. update_progress ''T'' ''s'' (1/2) None None None booted = (Return (), w') \<and>
      progress_field w' ''error'' = Some JNull) \<and>
   (\<exists>w'. complete_task ''T'' booted = (Return (), w') \<and> progress_field w' ''error'' = Some JNull)"
  using update_progress_error_overwritten [of booted "''T''" "''s''" "1/2" None "Some ''boom''" None]
  by (simp add: readable_booted store_ok_booted opt_str_def)

text \<open>
  The claim C2 as stated fails: after a call that set the error \<^verbatim>\<open>boom\<close>, a call with no
  error leaves null in the file.
\<close>

theorem error_set_then_cleared_by_update:
  "progress_field (snd (update_progress ''T'' ''s'' (1/2) None (Some ''boom'') None booted))
     ''error'' = Some (JStr ''boom'') \<and>
   progress_field (snd (update_progress ''T'' ''s'' (3/5) None None None
      (snd (update_progress ''T'' ''s'' (1/2) None (Some ''boom'') None booted))))
     ''error'' = Some JNull"
proof -
  from update_progress_readable [OF readable_booted, of "''T''" "''s''" "1/2" None "Some ''boom''" None]
  obtain w1 where u1: "update_progress ''T'' ''s'' (1/2) None (Some ''boom'') None booted = (Return (), w1)"
    and f1: "files w1 PROGRESS_FILE = Document (written_record booted ''T'' ''s'' (1/2) None (Some ''boom'') None)"
    and r1: "readable (files w1 PROGRESS_FILE)" by metis
  from update_progress_readable [OF r1, of "''T''" "''s''" "3/5" None None None]
  obtain w2 where u2: "update_progress ''T'' ''s'' (3/5) None None None w1 = (Return (), w2)"
    and f2: "files w2 PROGRESS_FILE = Document (written_record w1 ''T'' ''s'' (3/5) None None None)"
    by metis
  show ?thesis
    using progress_field_written [OF f1] progress_field_written [OF f2]
    by (simp add: u1 u2 opt_str_def)
qed

lemma stored_started_at_written:
  "files w' PROGRESS_FILE = Document (written_record w tn cs p eta err pid) \<Longrightarrow>
   stored_started_at w' =
     (if truthy (stored_started_at w) then stored_started_at w else JTime (clock w (ticks w))) \<and>
   truthy (stored_started_at w')"
  by (simp add: stored_started_at_def progress_field_def written_record_def)

text \<open>
  C5, as the code has it. On a readable progress file, \<^verbatim>\<open>update_progress\<close> keeps the
  \<^verbatim>\<open>started_at\<close> that the file holds whenever that value is truthy, whatever task the
  stored record belongs to and whether or not it is active, and stamps the current time
  otherwise; \<^verbatim>\<open>last_update\<close> is always the current time. A second call, for the same
  task or another, therefore writes the same \<^verbatim>\<open>started_at\<close> as the first.
\<close>

theorem update_progress_started_at:
  "readable (files w PROGRESS_FILE) \<longrightarrow>
     (\<exists>w1 w2. update_progress tn cs p eta err pid w = (Return (), w1) \<and>
        progress_field w1 ''started_at'' =
          Some (if truthy (stored_started_at w) then stored_started_at w
                else JTime (clock w (ticks w))) \<and>
        progress_field w1 ''last_update'' = Some (JTime (clock w (ticks w))) \<and>
        update_progress tn' cs' p' eta' err' pid' w1 = (Return (), w2) \<and>
        progress_field w2 ''started_at'' = progress_field w1 ''started_at'' \<and>
        progress_field w2 ''last_update'' = Some (JTime (clock w (Suc (ticks w)))))"
proof
  assume r: "readable (files w PROGRESS_FILE)"
  from update_progress_readable [OF r, of tn cs p eta err pid] obtain w1 where
    u1: "update_progress tn cs p eta err pid w = (Return (), w1)" and
    f1: "files w1 PROGRESS_FILE = Document (written_record w tn cs p eta err pid)" and
    r1: "readable (files w1 PROGRESS_FILE)" and c1: "clock w1 = clock w" and
    t1: "ticks w1 = Suc (ticks w)" by metis
  from update_progress_readable [OF r1, of tn' cs' p' eta' err' pid'] obtain w2 where
    u2: "update_progress tn' cs' p' eta' err' pid' w1 = (Return (), w2)" and
    f2: "files w2 PROGRESS_FILE = Document (written_record w1 tn' cs' p' eta' err' pid')"
    by metis
  show "\<exists>w1 w2. update_progress tn cs p eta err pid w = (Return (), w1) \<and>
        progress_field w1 ''started_at'' =
          Some (if truthy (stored_started_at w) then stored_started_at w
                else JTime (clock w (ticks w))) \<and>
        progress_field w1 ''last_update'' = Some (JTime (clock w (ticks w))) \<and>
        update_progress tn' cs' p' eta' err' pid' w1 = (Return (), w2) \<and>
        progress_field w2 ''started_at'' = progress_field w1 ''started_at'' \<and>
        progress_field w2 ''last_update'' = Some (JTime (clock w (Suc (ticks w))))"
    using u1 u2 progress_field_written [OF f1] progress_field_written [OF f2]
      stored_started_at_written [OF f1]
    by (simp add: c1 t1)
qed

theorem update_progress_started_at_witness:
  "readable (files booted PROGRESS_FILE) \<and>
   (\<exists>w1 w2. update_progress ''T'' ''one'' (1/4) None None None booted = (Return (), w1) \<and>
      progress_field w1 ''started_at'' = Some (JTime 10) \<and>
      progress_field w1 ''last_update'' = Some (JTime 10) \<and>
      update_progress ''T'' ''two'' (1/2) None None None w1 = (Return (), w2) \<and>
      progress_field w2 ''started_at'' = Some (JTime 10) \<and>
      progress_field w2 ''last_update'' = Some (JTime 20))"
proof -
  have "stored_started_at booted = JNull"
    by (simp add: stored_started_at_def progress_field_def booted_files inactive_template_def)
  then show ?thesis
    using update_progress_started_at [of booted "''T''" "''one''" "1/4" None None None
        "''T''" "''two''" "1/2" None None None]
    by (auto simp: readable_booted)
qed

text \<open>
  The claim C5 as stated fails: with a record active for task \<^verbatim>\<open>U\<close> only, started at 10,
  a first call for task \<^verbatim>\<open>T\<close> at time 20 writes \<^verbatim>\<open>started_at\<close> 10, not 20.
\<close>

theorem started_at_taken_from_other_task:
  "progress_field (snd (update_progress ''U'' ''s'' (1/2) None None None booted)) ''active''
     = Some (JBool True) \<and>
   progress_field (snd (update_progress ''U'' ''s'' (1/2) None None None booted)) ''task_name''
     = Some (JStr ''U'') \<and>
   clock (snd (update_progress ''U'' ''s'' (1/2) None None None booted))
     (ticks (snd (update_progress ''U'' ''s'' (1/2) None None None booted))) = 20 \<and>
   progress_field (snd (update_progress ''T'' ''s'' (1/2) None None None
      (snd (update_progress ''U'' ''s'' (1/2) None None None booted)))) ''task_name''
     = Some (JStr ''T'') \<and>
   progress_field (snd (update_progress ''T'' ''s'' (1/2) None None None
      (snd (update_progress ''U'' ''s'' (1/2) None None None booted)))) ''started_at''
     = Some (JTime 10)"
proof -
  have s: "stored_started_at booted = JNull"
    by (simp add: stored_started_at_def progress_field_def booted_files inactive_template_def)
  from update_progress_readable [OF readable_booted, of "''U''" "''s''" "1/2" None None None]
  obtain w1 where u1: "update_progress ''U'' ''s'' (1/2) None None None booted = (Return (), w1)"
    and f1: "files w1 PROGRESS_FILE = Document (written_record booted ''U'' ''s'' (1/2) None None None)"
    and r1: "readable (files w1 PROGRESS_FILE)" and c1: "clock w1 = clock booted"
    and t1: "ticks w1 = Suc (ticks booted)" by metis
  from update_progress_readable [OF r1, of "''T''" "''s''" "1/2" None None None]
  obtain w2 where u2: "update_progress ''T'' ''s'' (1/2) None None None w1 = (Return (), w2)"
    and f2: "files w2 PROGRESS_FILE = Document (written_record w1 ''T'' ''s'' (1/2) None None None)"
    by metis
  show ?thesis
    using progress_field_written [OF f1] progress_field_written [OF f2]
      stored_started_at_written [OF f1]
    by (simp add: u1 u2 c1 t1 s)
qed

section \<open>Reading and writing the files\<close>

text \<open>
  C4, as the code has it. When a state file is missing, cannot be read, or holds text
  that is not JSON, \<^verbatim>\<open>get_progress\<close> and \<^verbatim>\<open>get_history\<close> return the empty dict and
  \<^verbatim>\<open>get_widget_position\<close> returns the position (100, 100); none of them raises and none
  changes the environment.
\<close>

theorem getters_degrade:
  "(files w PROGRESS_FILE \<in> {Missing, Unreadable, Malformed} \<longrightarrow>
      get_progress w = (Return (JDict []), w)) \<and>
   (files w HISTORY_FILE \<in> {Missing, Unreadable, Malformed} \<longrightarrow>
      get_history w = (Return (JDict []), w)) \<and>
   (files w WIDGET_POSITION_FILE \<in> {Missing, Unreadable, Malformed} \<longrightarrow>
      get_widget_position w = (Return (JDict [(''x'', JInt 100), (''y'', JInt 100)]), w))"
  by (auto simp: get_progress_def get_history_def get_widget_position_def read_safe_def prog_defs)

theorem getters_degrade_witness:
  "files corrupt_world PROGRESS_FILE \<in> {Missing, Unreadable, Malformed} \<and>
   files corrupt_world HISTORY_FILE \<in> {Missing, Unreadable, Malformed} \<and>
   files corrupt_world WIDGET_POSITION_FILE \<in> {Missing, Unreadable, Malformed} \<and>
   get_progress corrupt_world = (Return (JDict []), corrupt_world) \<and>
   get_history corrupt_world = (Return (JDict []), corrupt_world) \<and>
   get_widget_position corrupt_world =
     (Return (JDict [(''x'', JInt 100), (''y'', JInt 100)]), corrupt_world)"
  using getters_degrade [of corrupt_world] by (simp add: corrupt_world_def)

text \<open>
  The claim C4 as stated fails: on such files \<^verbatim>\<open>get_progress\<close> returns a dict that is not
  the inactive template and has no \<^verbatim>\<open>active\<close> key, and \<^verbatim>\<open>get_history\<close> one without
  \<^verbatim>\<open>completed_tasks\<close>, on which \<^verbatim>\<open>complete_task\<close> itself raises \<^verbatim>\<open>KeyError\<close>.
\<close>

theorem getters_return_empty_dict:
  "get_progress corrupt_world = (Return (JDict []), corrupt_world) \<and>
   JDict [] \<noteq> inactive_template \<and>
   py_getitem (JDict []) ''active'' = Raise (KeyError ''active'') \<and>
   get_history corrupt_world = (Return (JDict []), corrupt_world) \<and>
   JDict [] \<noteq> JDict [(''completed_tasks'', JList [])] \<and>
   fst (complete_task ''T'' corrupt_world) = Raise (KeyError ''completed_tasks'')"
  by (simp add: get_progress_def get_history_def read_safe_def corrupt_world_def
      inactive_template_def complete_task_def calculate_duration_def prog_defs time_now_def)

text \<open>A file that is not UTF-8: the \<^verbatim>\<open>UnicodeDecodeError\<close> is not caught by \<^verbatim>\<open>_read_safe\<close>.\<close>

lemma undecodable_file_raises:
  "(files w PROGRESS_FILE = Undecodable msg \<longrightarrow>
      get_progress w = (Raise (Exn ''UnicodeDecodeError'' msg), w)) \<and>
   (files w HISTORY_FILE = Undecodable msg \<longrightarrow>
      get_history w = (Raise (Exn ''UnicodeDecodeError'' msg), w)) \<and>
   (files w WIDGET_POSITION_FILE = Undecodable msg \<longrightarrow>
      get_widget_position w = (Raise (Exn ''UnicodeDecodeError'' msg), w))"
  by (simp add: get_progress_def get_history_def get_widget_position_def read_safe_def bind_def)

section \<open>How the store writes a state file\<close>

text \<open>Calls in place compose, and what they do to the files depends on the files only.\<close>

lemma in_place_append: "in_place a \<Longrightarrow> in_place b \<Longrightarrow> in_place (a @ b)"
  by (induction a rule: in_place.induct) simp_all

lemma files_fold_perform:
  "files w1 = files w2 \<Longrightarrow> files (fold perform cs w1) = files (fold perform cs w2)"
proof (induction cs arbitrary: w1 w2)
  case Nil
  then show ?case by simp
next
  case (Cons c cs)
  have "files (perform c w1) = files (perform c w2)"
    using Cons.prems by (cases c) simp_all
  then have "files (fold perform cs (perform c w1)) = files (fold perform cs (perform c w2))"
    by (rule Cons.IH)
  then show ?case by simp
qed

lemma in_place_betweenI:
  assumes "writes w' = rev cs @ writes w" "in_place cs" "files w' = files (fold perform cs w)"
  shows "in_place_between w w'"
proof -
  have "calls_made w w' = cs" using assms(1) by (simp add: calls_made_def)
  then show ?thesis using assms by (simp add: in_place_between_def)
qed

lemma in_place_betweenE:
  assumes "in_place_between w w'"
  obtains cs where "writes w' = rev cs @ writes w" "in_place cs"
    "files w' = files (fold perform cs w)"
  using assms by (auto simp: in_place_between_def Let_def)

lemma in_place_between_same:
  "writes w' = writes w \<Longrightarrow> files w' = files w \<Longrightarrow> in_place_between w w'"
  by (rule in_place_betweenI [of _ "[]"]) simp_all

lemma in_place_between_trans:
  assumes "in_place_between w w'" "in_place_between w' w''"
  shows "in_place_between w w''"
proof -
  obtain cs1 where 1: "writes w' = rev cs1 @ writes w" "in_place cs1"
    "files w' = files (fold perform cs1 w)"
    using assms(1) by (rule in_place_betweenE)
  obtain cs2 where 2: "writes w'' = rev cs2 @ writes w'" "in_place cs2"
    "files w'' = files (fold perform cs2 w')"
    using assms(2) by (rule in_place_betweenE)
  have "files (fold perform cs2 w') = files (fold perform cs2 (fold perform cs1 w))"
    using 1(3) by (rule files_fold_perform)
  then have "files w'' = files (fold perform (cs1 @ cs2) w)" using 2(3) by simp
  moreover have "writes w'' = rev (cs1 @ cs2) @ writes w" using 1(1) 2(1) by simp
  moreover have "in_place (cs1 @ cs2)" using 1(2) 2(2) by (rule in_place_append)
  ultimately show ?thesis by (rule in_place_betweenI [rotated 2, of _ _ _]) 
qed

lemma wip_bind:
  assumes "\<And>s. writes_in_place m s" "\<And>x s. writes_in_place (f x) s"
  shows "writes_in_place (bind m f) w"
proof (cases "m w")
  case (Pair r s')
  have m: "in_place_between w s'" using assms(1) [of w] Pair by (simp add: writes_in_place_def)
  show ?thesis
  proof (cases r)
    case (Return x)
    have "in_place_between s' (snd (f x s'))" using assms(2) [of x s'] by (simp add: writes_in_place_def)
    with m have "in_place_between w (snd (f x s'))" by (rule in_place_between_trans)
    then show ?thesis using Pair Return by (simp add: writes_in_place_def bind_def)
  next
    case (Raise e)
    then show ?thesis using Pair m by (simp add: writes_in_place_def bind_def)
  qed
qed

lemma wip_write_safe: "writes_in_place (write_safe filepath data) w"
  unfolding writes_in_place_def
  by (rule in_place_betweenI [of _ "[Open_w filepath, Json_dump filepath data]"])
     (simp_all add: write_safe_def)

lemma wip_write_safe_on: "writes_in_place (\<lambda>w. write_safe filepath (data w) w) s"
  using wip_write_safe [of filepath "data s" s] by (simp add: writes_in_place_def)

lemma wip_read_safe: "writes_in_place (read_safe filepath) w"
  unfolding writes_in_place_def
  by (rule in_place_between_same) (simp_all add: read_safe_def split: file_state.splits)

lemma wip_time_now: "writes_in_place time_now w"
  unfolding writes_in_place_def by (rule in_place_between_same) (simp_all add: time_now_def)

lemma wip_lift: "writes_in_place (lift r) w"
  unfolding writes_in_place_def by (rule in_place_between_same) (simp_all add: lift_def)

lemma wip_return: "writes_in_place (return x) w"
  unfolding writes_in_place_def by (rule in_place_between_same) (simp_all add: return_def)

lemma wip_if:
  "writes_in_place a w \<Longrightarrow> writes_in_place b w \<Longrightarrow> writes_in_place (if c then a else b) w"
  by simp

lemma wip_try: "writes_in_place m w \<Longrightarrow> writes_in_place (try_except_log m) w"
  by (cases "m w") (simp add: writes_in_place_def try_except_log_def)

lemma wip_ensure_step:
  "writes_in_place (\<lambda>w. if files w filepath = Missing then write_safe filepath data w
                        else (Return (), w)) s"
proof (cases "files s filepath = Missing")
  case True
  then show ?thesis using wip_write_safe [of filepath data s] by (simp add: writes_in_place_def)
next
  case False
  then show ?thesis using wip_return [of "()" s] by (simp add: writes_in_place_def return_def)
qed

lemmas wip_rules = wip_bind wip_write_safe wip_write_safe_on wip_read_safe wip_time_now
  wip_lift wip_return wip_if wip_try wip_ensure_step

lemma wip_get_started_at: "writes_in_place get_started_at w"
  unfolding get_started_at_def by (intro wip_rules)

lemma wip_calculate_duration: "writes_in_place calculate_duration w"
  unfolding calculate_duration_def by (intro wip_rules)

lemma wip_ensure_files_exist: "writes_in_place ensure_files_exist w"
  unfolding ensure_files_exist_def by (intro wip_rules)

lemma wip_update_progress: "writes_in_place (update_progress tn cs p eta err pid) w"
  unfolding update_progress_def by (intro wip_rules wip_get_started_at)

lemma wip_complete_task: "writes_in_place (complete_task name) w"
  unfolding complete_task_def by (intro wip_rules wip_calculate_duration)

lemma wip_save_widget_position: "writes_in_place (save_widget_position x y) w"
  unfolding save_widget_position_def by (intro wip_rules)

lemma wip_clear_stale_progress: "writes_in_place (clear_stale_progress max_idle) w"
  unfolding clear_stale_progress_def get_progress_def by (intro wip_rules)

text \<open>
  C3, as the code has it. Every operation of the store that writes does so in place:
  \<^verbatim>\<open>_ensure_files_exist\<close>, \<^verbatim>\<open>update_progress\<close>, \<^verbatim>\<open>complete_task\<close>,
  \<^verbatim>\<open>save_widget_position\<close> and \<^verbatim>\<open>clear_stale_progress\<close> change the state files only by
  pairs of calls, \<^verbatim>\<open>open(filepath, 'w')\<close> on the state file itself and then \<^verbatim>\<open>json.dump\<close>
  into it, whatever the environment they start in, and never by a replace. One
  \<^verbatim>\<open>_write_safe\<close> is one such pair; a reader of the file gets what the file held before
  the pair, the empty dict between its two calls, and the new document after it.
\<close>

theorem store_writes_in_place:
  "writes_in_place ensure_files_exist w \<and>
   writes_in_place (update_progress task_name current_step progress eta_seconds error pid) w \<and>
   writes_in_place (complete_task task_name) w \<and>
   writes_in_place (save_widget_position x y) w \<and>
   writes_in_place (clear_stale_progress max_idle_seconds) w \<and>
   calls_made w (snd (write_safe filepath data w)) =
     [Open_w filepath, Json_dump filepath data] \<and>
   observations filepath (calls_made w (snd (write_safe filepath data w))) w =
     [reader_sees filepath w, Return (JDict []), Return data]"
proof -
  have made: "calls_made w (snd (write_safe filepath data w)) =
      [Open_w filepath, Json_dump filepath data]"
    by (simp add: calls_made_def write_safe_def)
  have "observations filepath [Open_w filepath, Json_dump filepath data] w =
      [reader_sees filepath w, Return (JDict []), Return data]"
    by (simp add: observations_def reader_sees_def read_safe_def)
  then have seen: "observations filepath (calls_made w (snd (write_safe filepath data w))) w =
      [reader_sees filepath w, Return (JDict []), Return data]"
    by (simp only: made)
  show ?thesis
    using wip_ensure_files_exist wip_update_progress wip_complete_task
      wip_save_widget_position wip_clear_stale_progress made seen
    by blast
qed

text \<open>
  The claim C3 as stated fails: \<^verbatim>\<open>update_progress\<close> on the freshly initialised store opens
  the progress file itself for writing and makes no replace, and a reader between its two
  calls gets the empty dict, which is neither the document that was there nor the one
  being written; with the write that the specification asks for, a reader gets one of
  these two.
\<close>

theorem update_progress_read_mid_write:
  "calls_made booted (snd (update_progress ''T'' ''s'' (1/2) None None None booted)) =
     [Open_w PROGRESS_FILE,
      Json_dump PROGRESS_FILE (written_record booted ''T'' ''s'' (1/2) None None None)] \<and>
   calls_made booted (snd (update_progress ''T'' ''s'' (1/2) None None None booted)) \<noteq>
     spec_atomic_write PROGRESS_FILE (written_record booted ''T'' ''s'' (1/2) None None None) \<and>
   observations PROGRESS_FILE
     (calls_made booted (snd (update_progress ''T'' ''s'' (1/2) None None None booted))) booted =
     [Return inactive_template, Return (JDict []),
      Return (written_record booted ''T'' ''s'' (1/2) None None None)] \<and>
   JDict [] \<noteq> inactive_template \<and>
   JDict [] \<noteq> written_record booted ''T'' ''s'' (1/2) None None None \<and>
   observations PROGRESS_FILE
     (spec_atomic_write PROGRESS_FILE (written_record booted ''T'' ''s'' (1/2) None None None))
     booted =
     [Return inactive_template,
      Return (written_record booted ''T'' ''s'' (1/2) None None None)]"
proof -
  have r: "readable (files booted PROGRESS_FILE)"
    by (simp add: booted_files inactive_template_def)
  have made: "calls_made booted (snd (update_progress ''T'' ''s'' (1/2) None None None booted)) =
     [Open_w PROGRESS_FILE,
      Json_dump PROGRESS_FILE (written_record booted ''T'' ''s'' (1/2) None None None)]"
    by (simp add: update_progress_run [OF r] calls_made_def)
  have obs: "observations PROGRESS_FILE [Open_w PROGRESS_FILE, Json_dump PROGRESS_FILE d] booted =
     [Return inactive_template, Return (JDict []), Return d]" for d
    by (simp add: observations_def reader_sees_def read_safe_def booted_files)
  have rep: "observations PROGRESS_FILE (spec_atomic_write PROGRESS_FILE d) booted =
     [Return inactive_template, Return d]" for d
    by (simp add: observations_def reader_sees_def read_safe_def booted_files spec_atomic_write_def)
  have ne: "JDict [] \<noteq> inactive_template"
     "JDict [] \<noteq> written_record booted ''T'' ''s'' (1/2) None None None"
    by (simp_all add: inactive_template_def written_record_def)
  show ?thesis
    unfolding made using obs rep ne by (simp add: spec_atomic_write_def)
qed

section \<open>The progress wrapper\<close>

lemma completions_frame [simp]:
  "completions (w\<lparr>ticks := t\<rparr>) = completions w"
  "completions (w\<lparr>writes := ws\<rparr>) = completions w"
  "completions (w\<lparr>files := fs\<rparr>) = completions w"
  "completions (w\<lparr>calls := Call_update_progress tn # calls w\<rparr>) = completions w"
  "completions (w\<lparr>calls := Call_complete_task tn # calls w\<rparr>) = Suc (completions w)"
  by (simp_all add: completions_def)

lemma store_ok_frame [simp]:
  "store_ok (w\<lparr>ticks := t\<rparr>) = store_ok w"
  "store_ok (w\<lparr>writes := ws\<rparr>) = store_ok w"
  "store_ok (w\<lparr>calls := cs\<rparr>) = store_ok w"
  by (simp_all add: store_ok_def)

lemma written_record_frame [simp]:
  "written_record (w\<lparr>calls := cs\<rparr>) = written_record w"
  "written_record (w\<lparr>writes := ws\<rparr>) = written_record w"
  by (simp_all add: written_record_def fun_eq_iff stored_started_at_def progress_field_def
      split: option.splits)

lemma new_entry_frame [simp]:
  "new_entry (w\<lparr>calls := cs\<rparr>) = new_entry w"
  by (simp add: new_entry_def fun_eq_iff duration_of_def stored_started_at_def progress_field_def
      split: json.splits)

lemma history_entries_frame [simp]:
  "history_entries (w\<lparr>calls := cs\<rparr>) = history_entries w"
  "history_entries (w\<lparr>ticks := t\<rparr>) = history_entries w"
  by (simp_all add: history_entries_def)

lemma pulse_state_update_progress_ok:
  assumes "store_ok w"
  obtains w' where
    "pulse_state_update_progress tn cs p eta err pid w = (Return (), w')"
    "files w' PROGRESS_FILE = Document (written_record w tn cs p eta err pid)"
    "files w' HISTORY_FILE = files w HISTORY_FILE"
    "store_ok w'" "completions w' = completions w" "clock w' = clock w"
    "ticks w' = Suc (ticks w)" "calls w' = Call_update_progress tn # calls w"
proof -
  have ok: "store_ok (w\<lparr>calls := Call_update_progress tn # calls w\<rparr>)"
    using assms by simp
  from update_progress_ok [OF ok, of tn cs p eta err pid] obtain w' where
    "update_progress tn cs p eta err pid (w\<lparr>calls := Call_update_progress tn # calls w\<rparr>)
       = (Return (), w')"
    "files w' PROGRESS_FILE = Document (written_record
       (w\<lparr>calls := Call_update_progress tn # calls w\<rparr>) tn cs p eta err pid)"
    "files w' HISTORY_FILE = files (w\<lparr>calls := Call_update_progress tn # calls w\<rparr>) HISTORY_FILE"
    "store_ok w'" "calls w' = calls (w\<lparr>calls := Call_update_progress tn # calls w\<rparr>)"
    "clock w' = clock (w\<lparr>calls := Call_update_progress tn # calls w\<rparr>)"
    "ticks w' = Suc (ticks (w\<lparr>calls := Call_update_progress tn # calls w\<rparr>))"
    by metis
  then show thesis
    by (intro that [of w'])
       (simp_all add: pulse_state_update_progress_def bind_def log_call_def completions_def)
qed

lemma pulse_state_complete_task_ok:
  assumes "store_ok w"
  obtains w' where
    "pulse_state_complete_task name w = (Return (), w')"
    "files w' PROGRESS_FILE = Document inactive_template"
    "history_entries w' = take 10 (new_entry w name # history_entries w)"
    "store_ok w'" "completions w' = Suc (completions w)" "clock w' = clock w"
    "calls w' = Call_complete_task name # calls w"
proof -
  have ok: "store_ok (w\<lparr>calls := Call_complete_task name # calls w\<rparr>)"
    using assms by simp
  from complete_task_ok [OF ok, of name] obtain w' where
    "complete_task name (w\<lparr>calls := Call_complete_task name # calls w\<rparr>) = (Return (), w')"
    "files w' PROGRESS_FILE = Document inactive_template"
    "history_entries w' = take 10 (new_entry (w\<lparr>calls := Call_complete_task name # calls w\<rparr>) name
        # history_entries (w\<lparr>calls := Call_complete_task name # calls w\<rparr>))"
    "store_ok w'" "calls w' = calls (w\<lparr>calls := Call_complete_task name # calls w\<rparr>)"
    "clock w' = clock (w\<lparr>calls := Call_complete_task name # calls w\<rparr>)"
    by metis
  then show thesis
    by (intro that [of w'])
       (simp_all add: pulse_state_complete_task_def bind_def log_call_def completions_def)
qed

lemma calculate_eta_run:
  "calculate_eta (self, w) =
     (case pp_total self of
        None \<Rightarrow> (Return None, (self, w))
      | Some tot \<Rightarrow>
          if tot = 0 \<or> pp_n self \<le> 0 then (Return None, (self, w))
          else (Return (if 0 < eta_speed self w
                        then Some (py_int (float_div (float_of_int (tot - pp_n self))
                               (eta_speed self w)))
                        else None),
                (self, w\<lparr>ticks := Suc (ticks w)\<rparr>)))"
  by (auto simp: calculate_eta_def prog_defs get_self_def on_world_def time_now_def Let_def
      eta_speed_def eta_elapsed_def split: option.splits)


lemma report_progress_unfold:
  assumes "\<not> pp_disable self"
  shows "\<exists>lbl progress eta w1.
     calculate_eta (self, w) = (Return eta, (self, w1)) \<and>
     (w1 = w \<or> w1 = w\<lparr>ticks := Suc (ticks w)\<rparr>) \<and>
     report_progress (self, w) =
       on_world (pulse_state_update_progress (pp_desc self) lbl progress eta None None) (self, w1)"
  using assms
  by (auto simp: report_progress_def calculate_eta_run prog_defs get_self_def
      split: option.splits)

lemma report_progress_ok:
  assumes "store_ok w" "\<not> pp_disable self"
  obtains w' eta where
    "report_progress (self, w) = (Return (), (self, w'))"
    "fst (calculate_eta (self, w)) = Return eta"
    "progress_field w' ''eta_seconds'' = Some (opt_int eta)"
    "store_ok w'" "completions w' = completions w" "clock w' = clock w"
proof -
  from report_progress_unfold [OF assms(2), of w] obtain lbl progress eta w1 where
    c: "calculate_eta (self, w) = (Return eta, (self, w1))" and
    w1: "w1 = w \<or> w1 = w\<lparr>ticks := Suc (ticks w)\<rparr>" and
    r: "report_progress (self, w) =
       on_world (pulse_state_update_progress (pp_desc self) lbl progress eta None None) (self, w1)"
    by blast
  from w1 assms(1) have ok1: "store_ok w1" and k1: "completions w1 = completions w"
    and c1: "clock w1 = clock w" by auto
  from pulse_state_update_progress_ok [OF ok1, of "pp_desc self" lbl progress eta None None]
  obtain w' where
    u: "pulse_state_update_progress (pp_desc self) lbl progress eta None None w1 = (Return (), w')"
    and f: "files w' PROGRESS_FILE = Document (written_record w1 (pp_desc self) lbl progress eta None None)"
    and ok': "store_ok w'" and k': "completions w' = completions w1" and c': "clock w' = clock w1"
    by metis
  show thesis
  proof (rule that [of w' eta])
    show "report_progress (self, w) = (Return (), (self, w'))"
      by (simp add: r on_world_def u)
    show "fst (calculate_eta (self, w)) = Return eta" by (simp add: c)
    show "progress_field w' ''eta_seconds'' = Some (opt_int eta)"
      using progress_field_written [OF f] by simp
    show "store_ok w'" by (rule ok')
    show "completions w' = completions w" by (simp add: k' k1)
    show "clock w' = clock w" by (simp add: c' c1)
  qed
qed

lemma py_int_nonneg: "0 \<le> x \<Longrightarrow> 0 \<le> py_int x"
  by (simp add: py_int_def)

lemma pow2_pos: "0 < pow2 k"
  by (simp add: pow2_def)

lemma round_half_even_nonneg: "0 \<le> y \<Longrightarrow> 0 \<le> round_half_even y"
  by (auto simp: round_half_even_def Let_def)

lemma round_double_nonneg: "0 \<le> x \<Longrightarrow> 0 \<le> round_double x"
proof -
  assume x: "0 \<le> x"
  have "0 \<le> x / pow2 (binade \<bar>x\<bar> - 52)"
    using x pow2_pos [of "binade \<bar>x\<bar> - 52"] by simp
  then have "0 \<le> round_half_even (x / pow2 (binade \<bar>x\<bar> - 52))"
    by (rule round_half_even_nonneg)
  then show ?thesis
    using pow2_pos [of "binade \<bar>x\<bar> - 52"]
    by (simp add: round_double_def Let_def)
qed

lemma eta_nonneg:
  assumes "n \<le> tot" "0 < speed"
  shows "0 \<le> py_int (float_div (float_of_int (tot - n)) speed)"
proof -
  have "0 \<le> float_of_int (tot - n)"
    unfolding float_of_int_def using assms(1) by (intro round_double_nonneg) simp
  then have "0 \<le> float_of_int (tot - n) / speed"
    using assms(2) by simp
  then have "0 \<le> float_div (float_of_int (tot - n)) speed"
    unfolding float_div_def by (rule round_double_nonneg)
  then show ?thesis by (rule py_int_nonneg)
qed

text \<open>
  C9, as the code has it. Take a tracker with a total that is known and not zero and a
  counter above zero, and let all conversions and divisions stay within the range of a
  double. The elapsed time is the clock reading minus the start time, and the throughput
  is the counter divided by the elapsed time, both in double arithmetic. With a positive
  elapsed time and a positive throughput the ETA is (total - counter) / throughput,
  divided in double arithmetic and then cut to an integer toward zero; it is not negative
  as long as the counter does not exceed the total. With a non-positive elapsed time or a
  throughput of zero the ETA is absent, and so it is, without the clock being read, when
  the total is unknown or zero or the counter is not above zero. \<^verbatim>\<open>_report_progress\<close>
  persists the ETA so computed, and \<^verbatim>\<open>update_progress\<close> persists whatever \<^verbatim>\<open>eta_seconds\<close>
  it is given.
\<close>

theorem calculate_eta_value:
  "(pp_total self = Some tot \<and> tot \<noteq> 0 \<and> 0 < pp_n self \<and> eta_in_range self tot w \<and>
    0 < eta_elapsed self w \<and> 0 < eta_speed self w \<longrightarrow>
      eta_elapsed self w = float_sub (clock w (ticks w)) (pp_start_t self) \<and>
      eta_speed self w = float_div (float_of_int (pp_n self)) (eta_elapsed self w) \<and>
      fst (calculate_eta (self, w)) =
        Return (Some (py_int (float_div (float_of_int (tot - pp_n self)) (eta_speed self w)))) \<and>
      (pp_n self \<le> tot \<longrightarrow>
         0 \<le> py_int (float_div (float_of_int (tot - pp_n self)) (eta_speed self w)))) \<and>
   (pp_total self = Some tot \<and> tot \<noteq> 0 \<and> 0 < pp_n self \<and>
    (eta_elapsed self w \<le> 0 \<or> eta_speed self w \<le> 0) \<longrightarrow>
      fst (calculate_eta (self, w)) = Return None) \<and>
   (pp_total self = None \<or> pp_total self = Some 0 \<or> pp_n self \<le> 0 \<longrightarrow>
      calculate_eta (self, w) = (Return None, (self, w))) \<and>
   (store_ok w \<and> \<not> pp_disable self \<and> report_in_range self w \<longrightarrow>
      (\<exists>w' eta. report_progress (self, w) = (Return (), (self, w')) \<and>
         fst (calculate_eta (self, w)) = Return eta \<and>
         progress_field w' ''eta_seconds'' = Some (opt_int eta))) \<and>
   (readable (files w PROGRESS_FILE) \<longrightarrow>
      (\<exists>w'. update_progress tn cs p eta_seconds err pid w = (Return (), w') \<and>
         progress_field w' ''eta_seconds'' = Some (opt_int eta_seconds)))"
proof (intro conjI impI)
  assume a: "pp_total self = Some tot \<and> tot \<noteq> 0 \<and> 0 < pp_n self \<and> eta_in_range self tot w \<and>
    0 < eta_elapsed self w \<and> 0 < eta_speed self w"
  show "eta_elapsed self w = float_sub (clock w (ticks w)) (pp_start_t self)"
    by (simp add: eta_elapsed_def)
  from a show "eta_speed self w = float_div (float_of_int (pp_n self)) (eta_elapsed self w)"
    by (simp add: eta_speed_def)
  from a show "fst (calculate_eta (self, w)) =
        Return (Some (py_int (float_div (float_of_int (tot - pp_n self)) (eta_speed self w))))"
    by (simp add: calculate_eta_run)
  assume "pp_n self \<le> tot"
  with a show "0 \<le> py_int (float_div (float_of_int (tot - pp_n self)) (eta_speed self w))"
    by (intro eta_nonneg) simp_all
next
  assume a: "pp_total self = Some tot \<and> tot \<noteq> 0 \<and> 0 < pp_n self \<and>
    (eta_elapsed self w \<le> 0 \<or> eta_speed self w \<le> 0)"
  then have "eta_speed self w \<le> 0"
    by (auto simp: eta_speed_def)
  with a show "fst (calculate_eta (self, w)) = Return None"
    by (simp add: calculate_eta_run)
next
  assume "pp_total self = None \<or> pp_total self = Some 0 \<or> pp_n self \<le> 0"
  then show "calculate_eta (self, w) = (Return None, (self, w))"
    by (auto simp: calculate_eta_run split: option.splits)
next
  assume "store_ok w \<and> \<not> pp_disable self \<and> report_in_range self w"
  then have "store_ok w" "\<not> pp_disable self" by simp_all
  from report_progress_ok [OF this]
  show "\<exists>w' eta. report_progress (self, w) = (Return (), (self, w')) \<and>
         fst (calculate_eta (self, w)) = Return eta \<and>
         progress_field w' ''eta_seconds'' = Some (opt_int eta)"
    by metis
next
  assume r: "readable (files w PROGRESS_FILE)"
  from update_progress_readable [OF r, of tn cs p eta_seconds err pid]
  show "\<exists>w'. update_progress tn cs p eta_seconds err pid w = (Return (), w') \<and>
         progress_field w' ''eta_seconds'' = Some (opt_int eta_seconds)"
    by (metis progress_field_written)
qed

lemma float_facts:
  "float_sub 40 10 = 30" "float_sub 10 10 = 0" "float_of_int 2 = 2" "float_of_int 3 = 3"
  "float_div 2 30 = 4803839602528529 / 72057594037927936"
  "float_div 3 (4803839602528529 / 72057594037927936) = 45"
  "int_truediv 2 5 = 3602879701896397 / 9007199254740992"
  by code_simp+

text \<open>
  The rounding shows in the result: with 23 of 46 items done after 30 seconds the exact
  quotient is 30 and the code gives 29; with 7 of 42 after 3 seconds, 15 and 14.
\<close>

lemma eta_rounding:
  "py_int (float_div (float_of_int (46 - 23)) (float_div (float_of_int 23) 30)) = 29"
  "py_int (float_div (float_of_int (42 - 7)) (float_div (float_of_int 7) 3)) = 14"
  by code_simp+

lemma sample_eta:
  "0 < eta_elapsed sample_tracker (booted\<lparr>ticks := 3\<rparr>)"
  "0 < eta_speed sample_tracker (booted\<lparr>ticks := 3\<rparr>)"
  "eta_in_range sample_tracker 5 (booted\<lparr>ticks := 3\<rparr>)"
  "py_int (float_div (float_of_int 3)
     (eta_speed sample_tracker (booted\<lparr>ticks := 3\<rparr>))) = 45"
  "eta_elapsed sample_tracker booted \<le> 0"
  "report_in_range sample_tracker booted"
  by (simp_all add: eta_elapsed_def eta_speed_def eta_in_range_def report_in_range_def
      sample_tracker_def float_facts finite_double_def py_int_def)

theorem calculate_eta_value_witness:
  "(pp_total sample_tracker = Some 5 \<and> 0 < pp_n sample_tracker \<and> pp_n sample_tracker \<le> 5 \<and>
    eta_in_range sample_tracker 5 (booted\<lparr>ticks := 3\<rparr>) \<and>
    0 < eta_elapsed sample_tracker (booted\<lparr>ticks := 3\<rparr>) \<and>
    0 < eta_speed sample_tracker (booted\<lparr>ticks := 3\<rparr>) \<and>
    fst (calculate_eta (sample_tracker, booted\<lparr>ticks := 3\<rparr>)) = Return (Some 45)) \<and>
   (eta_elapsed sample_tracker booted \<le> 0 \<and>
    fst (calculate_eta (sample_tracker, booted)) = Return None) \<and>
   (pp_n (sample_tracker\<lparr>pp_n := 0\<rparr>) \<le> 0 \<and>
    calculate_eta (sample_tracker\<lparr>pp_n := 0\<rparr>, booted) =
      (Return None, (sample_tracker\<lparr>pp_n := 0\<rparr>, booted))) \<and>
   (store_ok booted \<and> \<not> pp_disable sample_tracker \<and> report_in_range sample_tracker booted \<and>
    (\<exists>w' eta. report_progress (sample_tracker, booted) = (Return (), (sample_tracker, w')) \<and>
       fst (calculate_eta (sample_tracker, booted)) = Return eta \<and>
       progress_field w' ''eta_seconds'' = Some (opt_int eta))) \<and>
   (readable (files booted PROGRESS_FILE) \<and>
    (\<exists>w'. update_progress ''T'' ''s'' (1/2) (Some 7) None None booted = (Return (), w') \<and>
       progress_field w' ''eta_seconds'' = Some (JInt 7)))"
proof -
  have s: "pp_total sample_tracker = Some 5" "pp_n sample_tracker = 2"
    "\<not> pp_disable sample_tracker"
    by (simp_all add: sample_tracker_def)
  show ?thesis
    using calculate_eta_value [of sample_tracker 5 "booted\<lparr>ticks := 3\<rparr>"]
      calculate_eta_value [of sample_tracker 5 booted "''T''" "''s''" "1/2" "Some 7" None None]
      calculate_eta_value [of "sample_tracker\<lparr>pp_n := 0\<rparr>" 5 booted]
    using sample_eta
    by (auto simp: s store_ok_booted readable_booted opt_int_def)
qed

text \<open>
  The claim C9 as stated fails: after \<^verbatim>\<open>PulseProgress(total=5, task="Load")\<close> and
  \<^verbatim>\<open>update(15)\<close>, with 30 seconds elapsed, the persisted \<^verbatim>\<open>eta_seconds\<close> is -20.
\<close>

theorem eta_negative_when_counter_exceeds_total:
  "fst (PulseProgress_init NoIterable None (Some 5) (Some ''Load'') None ''it'' True (1/10)
          False 0 booted) = Return (sample_tracker\<lparr>pp_n := 0\<rparr>) \<and>
   fst (update 15 (sample_tracker\<lparr>pp_n := 0\<rparr>, load_world)) = Return () \<and>
   pp_n (fst (snd (update 15 (sample_tracker\<lparr>pp_n := 0\<rparr>, load_world)))) = 15 \<and>
   progress_field (snd (snd (update 15 (sample_tracker\<lparr>pp_n := 0\<rparr>, load_world))))
     ''progress'' = Some (JFloat 1) \<and>
   progress_field (snd (snd (update 15 (sample_tracker\<lparr>pp_n := 0\<rparr>, load_world))))
     ''eta_seconds'' = Some (JInt (- 20))"
  by code_simp

section \<open>Iterating a wrapped sequence\<close>

lemma update_disabled:
  "pp_disable self \<Longrightarrow> update k (self, w) = (Return (), (self, w))"
  by (simp add: update_def prog_defs get_self_def)

lemma close_skips:
  "pp_disable self \<or> pp_n self \<le> 0 \<Longrightarrow> close (self, w) = (Return (), (self, w))"
  by (auto simp: close_def prog_defs get_self_def)

lemma iter_disabled:
  "pp_disable self \<Longrightarrow> iter (self, w) = (([], Return ()), (self, w))"
  by (simp add: iter_def)

lemma init_disabled:
  "\<exists>self. PulseProgress_init it desc tot task stp unit leave mi True initial w =
     (Return self, w\<lparr>ticks := Suc (ticks w)\<rparr>) \<and> pp_disable self"
  by (simp add: PulseProgress_init_def bind_def time_now_def Let_def)

lemma update_ok:
  assumes "store_ok w" "\<not> pp_disable self"
  obtains t w' where
    "update k (self, w) = (Return (), (self\<lparr>pp_n := pp_n self + k, pp_last_update_t := t\<rparr>, w'))"
    "store_ok w'" "completions w' = completions w" "clock w' = clock w"
proof (cases "pp_mininterval self \<le> float_sub (clock w (ticks w)) (pp_last_update_t self)")
  case True
  have ok: "store_ok (w\<lparr>ticks := Suc (ticks w)\<rparr>)" using assms by simp
  have nd: "\<not> pp_disable (self\<lparr>pp_n := pp_n self + k\<rparr>)" using assms by simp
  from report_progress_ok [OF ok nd] obtain w' where
    r: "report_progress (self\<lparr>pp_n := pp_n self + k\<rparr>, w\<lparr>ticks := Suc (ticks w)\<rparr>)
         = (Return (), (self\<lparr>pp_n := pp_n self + k\<rparr>, w'))"
    and "store_ok w'" "completions w' = completions (w\<lparr>ticks := Suc (ticks w)\<rparr>)"
      "clock w' = clock (w\<lparr>ticks := Suc (ticks w)\<rparr>)"
    by metis
  then show ?thesis
    using assms True
    by (intro that [of "clock w (ticks w)" w'])
       (simp_all add: update_def prog_defs get_self_def set_self_def on_world_def time_now_def)
next
  case False
  then show ?thesis
    using assms
    by (intro that [of "pp_last_update_t self" "w\<lparr>ticks := Suc (ticks w)\<rparr>"])
       (simp_all add: update_def prog_defs get_self_def set_self_def on_world_def time_now_def)
qed

lemma close_ok:
  assumes "store_ok w" "\<not> pp_disable self" "0 < pp_n self"
  obtains w' where "close (self, w) = (Return (), (self, w'))"
    "store_ok w'" "completions w' = Suc (completions w)"
    "files w' PROGRESS_FILE = Document inactive_template"
proof -
  from pulse_state_complete_task_ok [OF assms(1), of "pp_desc self"] obtain w1 where
    c: "pulse_state_complete_task (pp_desc self) w = (Return (), w1)" and
    ok: "store_ok w1" and k: "completions w1 = Suc (completions w)" and
    f: "files w1 PROGRESS_FILE = Document inactive_template"
    by metis
  show ?thesis
  proof (cases "pp_leave self")
    case True
    with assms c ok k f show ?thesis
      by (intro that [of "w1\<lparr>ticks := Suc (ticks w1)\<rparr>"])
         (simp_all add: close_def prog_defs get_self_def on_world_def print_final_def time_now_def)
  next
    case False
    with assms c ok k f show ?thesis
      by (intro that [of w1])
         (simp_all add: close_def prog_defs get_self_def on_world_def)
  qed
qed

lemma iter_loop_ok:
  "store_ok w \<Longrightarrow> \<not> pp_disable self \<Longrightarrow>
   \<exists>t w'. iter_loop xs (self, w) =
       ((xs, Return ()),
        (self\<lparr>pp_n := pp_n self + int (length xs), pp_last_update_t := t\<rparr>, w')) \<and>
     store_ok w' \<and> completions w' = completions w"
proof (induction xs arbitrary: self w)
  case Nil
  have "self\<lparr>pp_n := pp_n self, pp_last_update_t := pp_last_update_t self\<rparr> = self" by simp
  with Nil show ?case by (intro exI [of _ "pp_last_update_t self"] exI [of _ w]) simp
next
  case (Cons x xs)
  from update_ok [OF Cons.prems, of 1] obtain t w1 where
    u: "update 1 (self, w) = (Return (), (self\<lparr>pp_n := pp_n self + 1, pp_last_update_t := t\<rparr>, w1))"
    and ok1: "store_ok w1" and k1: "completions w1 = completions w"
    by metis
  have nd: "\<not> pp_disable (self\<lparr>pp_n := pp_n self + 1, pp_last_update_t := t\<rparr>)"
    using Cons.prems by simp
  from Cons.IH [OF ok1 nd] obtain t' w' where
    l: "iter_loop xs (self\<lparr>pp_n := pp_n self + 1, pp_last_update_t := t\<rparr>, w1) =
       ((xs, Return ()),
        (self\<lparr>pp_n := pp_n self + 1, pp_last_update_t := t\<rparr>
           \<lparr>pp_n := pp_n (self\<lparr>pp_n := pp_n self + 1, pp_last_update_t := t\<rparr>) + int (length xs),
            pp_last_update_t := t'\<rparr>, w'))"
    and ok': "store_ok w'" and k': "completions w' = completions w1"
    by blast
  show ?case
    by (intro exI [of _ t'] exI [of _ w']) (simp add: u l ok' k' k1 add.assoc)
qed


lemma init_ok:
  assumes "store_ok w"
  obtains self w1 where
    "PulseProgress_init it desc tot task stp unit leave mi False initial w = (Return self, w1)"
    "store_ok w1" "completions w1 = completions w" "pp_iterable self = it"
    "\<not> pp_disable self" "pp_n self = initial"
proof -
  define self where "self =
     \<lparr>pp_iterable = it,
      pp_desc = str_or desc (str_or task ''Processing''),
      pp_step = str_or stp ''1/1'',
      pp_total = (case tot of Some k \<Rightarrow> Some k
                  | None \<Rightarrow> (case it of Sized xs \<Rightarrow> Some (int (length xs)) | _ \<Rightarrow> None)),
      pp_unit = unit, pp_leave = leave, pp_mininterval = mi, pp_disable = False,
      pp_n = initial, pp_start_t = clock w (ticks w), pp_last_update_t = clock w (ticks w)\<rparr>"
  have ok: "store_ok (w\<lparr>ticks := Suc (ticks w)\<rparr>)" using assms by simp
  have nd: "\<not> pp_disable self" by (simp add: self_def)
  from report_progress_ok [OF ok nd] obtain w1 where
    r: "report_progress (self, w\<lparr>ticks := Suc (ticks w)\<rparr>) = (Return (), (self, w1))"
    and ok1: "store_ok w1" and k1: "completions w1 = completions (w\<lparr>ticks := Suc (ticks w)\<rparr>)"
    by metis
  have "PulseProgress_init it desc tot task stp unit leave mi False initial w = (Return self, w1)"
    using r unfolding self_def
    by (simp add: PulseProgress_init_def bind_def time_now_def Let_def)
  then show thesis
    using ok1 k1 by (intro that [of self w1]) (simp_all add: self_def)
qed

text \<open>
  C7, as the code has it. On a store as its own writes leave it, a wrapper made with
  \<^verbatim>\<open>disable=False\<close> and a counter that starts at zero or above, around a sequence of
  length N \<ge> 1, yields the N items in their order and calls \<^verbatim>\<open>complete_task\<close> exactly
  once, at the end of the iteration. Around an empty sequence, with a counter that starts
  at zero or below, it yields nothing and never calls \<^verbatim>\<open>complete_task\<close>. A wrapper made
  with \<^verbatim>\<open>disable=True\<close> writes no file and makes no call on the store, on construction,
  iteration, \<^verbatim>\<open>update\<close> or \<^verbatim>\<open>close\<close>.
\<close>

theorem iter_yields_all_and_completes_once:
  "(store_ok w \<and> xs \<noteq> [] \<and> 0 \<le> initial \<and> (it = Sized xs \<or> it = Unsized xs) \<longrightarrow>
      (\<exists>self w1 self' w2.
         PulseProgress_init it desc tot task stp unit leave mi False initial w = (Return self, w1) \<and>
         iter (self, w1) = ((xs, Return ()), (self', w2)) \<and>
         completions w1 = completions w \<and> completions w2 = Suc (completions w))) \<and>
   (store_ok w \<and> initial \<le> 0 \<and> (it = Sized [] \<or> it = Unsized []) \<longrightarrow>
      (\<exists>self w1.
         PulseProgress_init it desc tot task stp unit leave mi False initial w = (Return self, w1) \<and>
         iter (self, w1) = (([], Return ()), (self, w1)) \<and>
         completions w1 = completions w)) \<and>
   (\<exists>self w1.
      PulseProgress_init it desc tot task stp unit leave mi True initial w = (Return self, w1) \<and>
      files w1 = files w \<and> writes w1 = writes w \<and> calls w1 = calls w \<and>
      snd (iter (self, w1)) = (self, w1) \<and>
      update k (self, w1) = (Return (), (self, w1)) \<and>
      close (self, w1) = (Return (), (self, w1)))"
proof (intro conjI impI)
  assume a: "store_ok w \<and> xs \<noteq> [] \<and> 0 \<le> initial \<and> (it = Sized xs \<or> it = Unsized xs)"
  then have ok: "store_ok w" by simp
  from init_ok [OF ok, of it desc tot task stp unit leave mi initial] obtain self w1 where
    i: "PulseProgress_init it desc tot task stp unit leave mi False initial w = (Return self, w1)"
    and ok1: "store_ok w1" and k1: "completions w1 = completions w"
    and it: "pp_iterable self = it" and nd: "\<not> pp_disable self" and n: "pp_n self = initial"
    by metis
  from a it have items: "items (pp_iterable self) = xs" and ni: "pp_iterable self \<noteq> NoIterable"
    by auto
  from iter_loop_ok [OF ok1 nd, of xs] obtain t w' where
    l: "iter_loop xs (self, w1) =
       ((xs, Return ()),
        (self\<lparr>pp_n := pp_n self + int (length xs), pp_last_update_t := t\<rparr>, w'))"
    and ok': "store_ok w'" and k': "completions w' = completions w1"
    by blast
  have pos: "0 < pp_n (self\<lparr>pp_n := pp_n self + int (length xs), pp_last_update_t := t\<rparr>)"
    using a n by (cases xs) simp_all
  have nd': "\<not> pp_disable (self\<lparr>pp_n := pp_n self + int (length xs), pp_last_update_t := t\<rparr>)"
    using nd by simp
  from close_ok [OF ok' nd' pos] obtain w2 where
    c: "close (self\<lparr>pp_n := pp_n self + int (length xs), pp_last_update_t := t\<rparr>, w') =
        (Return (), (self\<lparr>pp_n := pp_n self + int (length xs), pp_last_update_t := t\<rparr>, w2))"
    and k2: "completions w2 = Suc (completions w')"
    by metis
  have "iter (self, w1) = ((xs, Return ()),
      (self\<lparr>pp_n := pp_n self + int (length xs), pp_last_update_t := t\<rparr>, w2))"
    using nd ni by (simp add: iter_def items l c)
  with i k1 k2 k' show "\<exists>self w1 self' w2.
         PulseProgress_init it desc tot task stp unit leave mi False initial w = (Return self, w1) \<and>
         iter (self, w1) = ((xs, Return ()), (self', w2)) \<and>
         completions w1 = completions w \<and> completions w2 = Suc (completions w)"
    by auto
next
  assume a: "store_ok w \<and> initial \<le> 0 \<and> (it = Sized [] \<or> it = Unsized [])"
  then have ok: "store_ok w" by simp
  from init_ok [OF ok, of it desc tot task stp unit leave mi initial] obtain self w1 where
    i: "PulseProgress_init it desc tot task stp unit leave mi False initial w = (Return self, w1)"
    and k1: "completions w1 = completions w"
    and it: "pp_iterable self = it" and nd: "\<not> pp_disable self" and n: "pp_n self = initial"
    by metis
  from a n have "close (self, w1) = (Return (), (self, w1))"
    by (intro close_skips) simp
  with a it nd have "iter (self, w1) = (([], Return ()), (self, w1))"
    by (auto simp: iter_def)
  with i k1 show "\<exists>self w1.
         PulseProgress_init it desc tot task stp unit leave mi False initial w = (Return self, w1) \<and>
         iter (self, w1) = (([], Return ()), (self, w1)) \<and>
         completions w1 = completions w"
    by auto
next
  from init_disabled [of it desc tot task stp unit leave mi initial w] obtain self where
    i: "PulseProgress_init it desc tot task stp unit leave mi True initial w =
     (Return self, w\<lparr>ticks := Suc (ticks w)\<rparr>)" and d: "pp_disable self"
    by blast
  show "\<exists>self w1.
      PulseProgress_init it desc tot task stp unit leave mi True initial w = (Return self, w1) \<and>
      files w1 = files w \<and> writes w1 = writes w \<and> calls w1 = calls w \<and>
      snd (iter (self, w1)) = (self, w1) \<and>
      update k (self, w1) = (Return (), (self, w1)) \<and>
      close (self, w1) = (Return (), (self, w1))"
    using i d
    by (intro exI [of _ self] exI [of _ "w\<lparr>ticks := Suc (ticks w)\<rparr>"])
       (simp add: iter_disabled update_disabled close_skips)
qed

theorem iter_yields_all_and_completes_once_witness:
  "(store_ok booted \<and> [1, 2, 3 :: nat] \<noteq> [] \<and> (0 :: int) \<le> 0 \<and>
    (\<exists>self w1 self' w2.
       PulseProgress_init (Sized [1, 2, 3 :: nat]) None None (Some ''Load'') None ''it'' True
         (1/10) False 0 booted = (Return self, w1) \<and>
       iter (self, w1) = (([1, 2, 3], Return ()), (self', w2)) \<and>
       completions w1 = 0 \<and> completions w2 = 1)) \<and>
   (\<exists>self w1.
       PulseProgress_init (Unsized ([] :: nat list)) None None (Some ''Load'') None ''it'' True
         (1/10) False 0 booted = (Return self, w1) \<and>
       iter (self, w1) = (([], Return ()), (self, w1)) \<and> completions w1 = 0)"
proof -
  have c: "completions booted = 0" by (simp add: completions_def)
  show ?thesis
    using iter_yields_all_and_completes_once [of booted "[1, 2, 3 :: nat]" 0 "Sized [1, 2, 3]"
        None None "Some ''Load''" None "''it''" True "1/10" 0]
      iter_yields_all_and_completes_once [of booted "[] :: nat list" 0 "Unsized []"
        None None "Some ''Load''" None "''it''" True "1/10" 0]
    by (simp add: store_ok_booted c)
qed

text \<open>
  The claim C7 as stated fails for N = 0: \<^verbatim>\<open>for x in PulseProgress([], task="Load")\<close> ends
  with no call of \<^verbatim>\<open>complete_task\<close>, and the record written on construction stays active.
\<close>

theorem empty_sequence_never_completed:
  "fst (PulseProgress_init (Sized ([] :: nat list)) None None (Some ''Load'') None ''it'' True
          (1/10) False 0 booted) =
     Return (sample_tracker\<lparr>pp_iterable := Sized [], pp_total := Some 0, pp_n := 0\<rparr>) \<and>
   fst (iter (sample_tracker\<lparr>pp_iterable := Sized [], pp_total := Some 0, pp_n := 0\<rparr>,
              empty_world)) = ([], Return ()) \<and>
   completions (snd (snd (iter
     (sample_tracker\<lparr>pp_iterable := Sized [], pp_total := Some 0, pp_n := 0\<rparr>, empty_world))))
     = 0 \<and>
   progress_field (snd (snd (iter
     (sample_tracker\<lparr>pp_iterable := Sized [], pp_total := Some 0, pp_n := 0\<rparr>, empty_world))))
     ''active'' = Some (JBool True)"
  by code_simp

text \<open>
  What the iteration of a wrapper made with \<^verbatim>\<open>disable=True\<close> yields: the generator ends
  at its \<^verbatim>\<open>return\<close>, before any item.
\<close>

lemma disabled_wrapper_yields_nothing:
  "fst (PulseProgress_init (Sized [1, 2, 3 :: nat]) None None (Some ''Load'') None ''it'' True
          (1/10) True 0 booted) =
     Return (sample_tracker\<lparr>pp_iterable := Sized [1, 2, 3], pp_total := Some 3, pp_n := 0,
                            pp_disable := True\<rparr>) \<and>
   fst (iter (sample_tracker\<lparr>pp_iterable := Sized [1, 2, 3], pp_total := Some 3, pp_n := 0,
                            pp_disable := True\<rparr>, w)) = ([], Return ())"
  by (simp add: iter_def PulseProgress_init_def bind_def time_now_def Let_def sample_tracker_def
      str_or_def)

section \<open>The task session\<close>

lemma on_world_update_progress_ok:
  assumes "store_ok w"
  obtains w' where
    "on_world (pulse_state_update_progress tn cs p eta err pid) (self, w) = (Return (), (self, w'))"
    "files w' PROGRESS_FILE = Document (written_record w tn cs p eta err pid)"
    "store_ok w'" "completions w' = completions w" "clock w' = clock w"
    "ticks w' = Suc (ticks w)"
proof -
  from pulse_state_update_progress_ok [OF assms, of tn cs p eta err pid] obtain w' where
    "pulse_state_update_progress tn cs p eta err pid w = (Return (), w')"
    "files w' PROGRESS_FILE = Document (written_record w tn cs p eta err pid)"
    "store_ok w'" "completions w' = completions w" "clock w' = clock w"
    "ticks w' = Suc (ticks w)"
    by metis
  then show thesis by (intro that [of w']) (simp_all add: on_world_def)
qed

lemma step_ok:
  assumes "store_ok w"
  obtains self' w' where "step d p (self, w) = (Return (), (self', w'))" "store_ok w'"
    "completions w' = completions w" "started self' = started self"
    "pt_closed self' = pt_closed self" "pt_task_name self' = pt_task_name self"
    "pt_total_steps self' = pt_total_steps self"
    "pt_current_step self' = (if pt_closed self then pt_current_step self else pt_current_step self + 1)"
proof (cases "pt_closed self")
  case True
  with assms show ?thesis
    by (intro that [of self w]) (simp_all add: step_def prog_defs get_self_def)
next
  case False
  define self' where "self' = self\<lparr>pt_current_step := pt_current_step self + 1\<rparr>"
  from on_world_update_progress_ok [OF assms] obtain w' where
    "on_world (pulse_state_update_progress (pt_task_name self')
         (pt_step_format self' (pt_current_step self') (pt_total_steps self') d)
         (case p of None \<Rightarrow> step_ratio self' | Some p \<Rightarrow> p)
         None None None) (self', w) = (Return (), (self', w'))"
    "store_ok w'" "completions w' = completions w"
    by metis
  with False show ?thesis
    by (intro that [of self' w'])
       (simp_all add: step_def prog_defs get_self_def set_self_def self'_def started_def
          cong: option.case_cong)
qed

lemma task_update_progress_ok:
  assumes "store_ok w"
  obtains w' where "PulseTask_update_progress p d (self, w) = (Return (), (self, w'))"
    "store_ok w'" "completions w' = completions w"
proof (cases "pt_closed self")
  case True
  with assms show ?thesis
    by (intro that [of w]) (simp_all add: PulseTask_update_progress_def prog_defs get_self_def)
next
  case False
  from on_world_update_progress_ok [OF assms] obtain w' where
    "on_world (pulse_state_update_progress (pt_task_name self)
         (str_or d (''Step '' @ str_int (pt_current_step self) @ ''/''
               @ str_int (pt_total_steps self)))
         p None None None) (self, w) = (Return (), (self, w'))"
    "store_ok w'" "completions w' = completions w"
    by metis
  with False show ?thesis
    by (intro that [of w'])
       (simp_all add: PulseTask_update_progress_def prog_defs get_self_def)
qed

lemma task_close_ok:
  assumes "store_ok w"
  obtains w' where
    "PulseTask_close (self, w) =
       (Return (), (self\<lparr>pt_closed := pt_closed self \<or> started self\<rparr>, w'))"
    "store_ok w'" "completions w' = completions w + pending self"
    "pending self = 1 \<longrightarrow> files w' PROGRESS_FILE = Document inactive_template"
    "clock w' = clock w"
proof (cases "started self \<and> \<not> pt_closed self")
  case True
  from pulse_state_complete_task_ok [OF assms, of "pt_task_name self"] obtain w' where
    "pulse_state_complete_task (pt_task_name self) w = (Return (), w')"
    "files w' PROGRESS_FILE = Document inactive_template"
    "store_ok w'" "completions w' = Suc (completions w)" "clock w' = clock w"
    by metis
  with True show ?thesis
    by (intro that [of w'])
       (simp_all add: PulseTask_close_def prog_defs get_self_def set_self_def on_world_def
          started_def pending_def)
next
  case False
  then have "self\<lparr>pt_closed := pt_closed self \<or> started self\<rparr> = self" by auto
  with False assms show ?thesis
    by (intro that [of w])
       (auto simp: PulseTask_close_def prog_defs get_self_def started_def pending_def)
qed

lemma started_closed [simp]:
  "started (self\<lparr>pt_closed := b\<rparr>) = started self"
  by (simp add: started_def)

lemma pending_after_close [simp]:
  "pending (self\<lparr>pt_closed := pt_closed self \<or> started self\<rparr>) = 0"
  by (simp add: pending_def)

lemma run_cmd_ok:
  assumes "store_ok w"
  obtains self' w' where "run_cmd c (self, w) = (Return (), (self', w'))" "store_ok w'"
    "started self' = started self"
    "completions w' + pending self' = completions w + pending self"
proof (cases c)
  case (Cmd_step d p)
  from step_ok [OF assms, of d p self] obtain self' w' where
    "step d p (self, w) = (Return (), (self', w'))" "store_ok w'"
    "completions w' = completions w" "started self' = started self"
    "pt_closed self' = pt_closed self"
    by metis
  with Cmd_step show ?thesis by (intro that [of self' w']) (simp_all add: pending_def)
next
  case (Cmd_update_progress p d)
  from task_update_progress_ok [OF assms, of p d self] obtain w' where
    "PulseTask_update_progress p d (self, w) = (Return (), (self, w'))"
    "store_ok w'" "completions w' = completions w"
    by metis
  with Cmd_update_progress show ?thesis by (intro that [of self w']) simp_all
next
  case Cmd_close
  from task_close_ok [OF assms, of self] obtain w' where
    "PulseTask_close (self, w) =
       (Return (), (self\<lparr>pt_closed := pt_closed self \<or> started self\<rparr>, w'))"
    "store_ok w'" "completions w' = completions w + pending self"
    by metis
  with Cmd_close show ?thesis
    by (intro that [of "self\<lparr>pt_closed := pt_closed self \<or> started self\<rparr>" w']) simp_all
qed

lemma run_cmds_ok:
  "store_ok w \<Longrightarrow>
   \<exists>self' w'. run_cmds cmds (self, w) = (Return (), (self', w')) \<and> store_ok w' \<and>
     started self' = started self \<and>
     completions w' + pending self' = completions w + pending self"
proof (induction cmds arbitrary: self w)
  case Nil
  then show ?case by (simp add: return_def)
next
  case (Cons c cmds)
  from run_cmd_ok [OF Cons.prems, of c self] obtain self1 w1 where
    c: "run_cmd c (self, w) = (Return (), (self1, w1))" and ok1: "store_ok w1"
    and s1: "started self1 = started self"
    and k1: "completions w1 + pending self1 = completions w + pending self"
    by metis
  from Cons.IH [OF ok1, of self1] obtain self' w' where
    "run_cmds cmds (self1, w1) = (Return (), (self', w'))" "store_ok w'"
    "started self' = started self1"
    "completions w' + pending self' = completions w1 + pending self1"
    by blast
  with c s1 k1 show ?case by (simp add: bind_def)
qed

lemma closes_ok:
  "store_ok w \<Longrightarrow>
   \<exists>self' w'. closes k (self, w) = (self', w') \<and> store_ok w' \<and>
     started self' = started self \<and> pending self' \<le> pending self \<and>
     completions w' + pending self' = completions w + pending self"
proof (induction k arbitrary: self w)
  case 0
  then show ?case by simp
next
  case (Suc k)
  from task_close_ok [OF Suc.prems, of self] obtain w1 where
    c: "PulseTask_close (self, w) =
       (Return (), (self\<lparr>pt_closed := pt_closed self \<or> started self\<rparr>, w1))"
    and ok1: "store_ok w1" and k1: "completions w1 = completions w + pending self"
    by metis
  from Suc.IH [OF ok1, of "self\<lparr>pt_closed := pt_closed self \<or> started self\<rparr>"]
  obtain self' w' where
    "closes k (self\<lparr>pt_closed := pt_closed self \<or> started self\<rparr>, w1) = (self', w')"
    "store_ok w'" "started self' = started (self\<lparr>pt_closed := pt_closed self \<or> started self\<rparr>)"
    "pending self' \<le> pending (self\<lparr>pt_closed := pt_closed self \<or> started self\<rparr>)"
    "completions w' + pending self' = completions w1 +
       pending (self\<lparr>pt_closed := pt_closed self \<or> started self\<rparr>)"
    by blast
  with c k1 show ?case by simp
qed

lemma enter_ok:
  assumes "store_ok w"
  obtains w' where
    "PulseTask_enter (self, w) = (Return (), (self\<lparr>pt_start_time := Some (clock w (ticks w))\<rparr>, w'))"
    "store_ok w'" "completions w' = completions w"
proof -
  have ok: "store_ok (w\<lparr>ticks := Suc (ticks w)\<rparr>)" using assms by simp
  from on_world_update_progress_ok [OF ok] obtain w' where
    "on_world (pulse_state_update_progress (pt_task_name self) ''Starting...'' 0 None None None)
       (self\<lparr>pt_start_time := Some (clock w (ticks w))\<rparr>, w\<lparr>ticks := Suc (ticks w)\<rparr>)
     = (Return (), (self\<lparr>pt_start_time := Some (clock w (ticks w))\<rparr>, w'))"
    "store_ok w'" "completions w' = completions (w\<lparr>ticks := Suc (ticks w)\<rparr>)"
    by metis
  then show thesis
    by (intro that [of w'])
       (simp_all add: PulseTask_enter_def prog_defs get_self_def set_self_def on_world_def
          time_now_def)
qed

lemma step_ratio_closed [simp]: "step_ratio (self\<lparr>pt_closed := b\<rparr>) = step_ratio self"
  by (simp add: step_ratio_def)

lemma exit_ok:
  assumes "store_ok w"
  obtains w' where
    "PulseTask_exit exc (self, w) =
       (Return (), (self\<lparr>pt_closed := pt_closed self \<or> started self\<rparr>, w'))"
    "store_ok w'" "completions w' = completions w + pending self"
    "\<And>name msg. exc = Some (name, msg) \<Longrightarrow>
       progress_field w' ''active'' = Some (JBool True) \<and>
       progress_field w' ''progress'' = Some (JFloat (max 0 (min 1 (step_ratio self)))) \<and>
       progress_field w' ''error'' = Some (JStr (name @ '': '' @ msg))"
proof -
  from task_close_ok [OF assms, of self] obtain w1 where
    c: "PulseTask_close (self, w) =
       (Return (), (self\<lparr>pt_closed := pt_closed self \<or> started self\<rparr>, w1))"
    and ok1: "store_ok w1" and k1: "completions w1 = completions w + pending self"
    by metis
  show thesis
  proof (cases exc)
    case None
    with c ok1 k1 show ?thesis
      by (intro that [of w1]) (simp_all add: PulseTask_exit_def prog_defs)
  next
    case (Some nt)
    obtain name msg where nt: "nt = (name, msg)" by (cases nt)
    from on_world_update_progress_ok [OF ok1] obtain w' where
      u: "on_world (pulse_state_update_progress (pt_task_name self) ''Error occurred''
             (step_ratio self) None (Some (name @ '': '' @ msg)) None)
           (self\<lparr>pt_closed := pt_closed self \<or> started self\<rparr>, w1)
         = (Return (), (self\<lparr>pt_closed := pt_closed self \<or> started self\<rparr>, w'))"
      and f: "files w' PROGRESS_FILE = Document (written_record w1 (pt_task_name self)
             ''Error occurred'' (step_ratio self) None (Some (name @ '': '' @ msg)) None)"
      and ok': "store_ok w'" and k': "completions w' = completions w1"
      by metis
    show ?thesis
    proof (rule that [of w'])
      show "PulseTask_exit exc (self, w) =
         (Return (), (self\<lparr>pt_closed := pt_closed self \<or> started self\<rparr>, w'))"
        using c u by (simp add: PulseTask_exit_def prog_defs get_self_def Some nt)
      show "store_ok w'" by (rule ok')
      show "completions w' = completions w + pending self" by (simp add: k' k1)
      show "\<And>name msg. exc = Some (name, msg) \<Longrightarrow>
       progress_field w' ''active'' = Some (JBool True) \<and>
       progress_field w' ''progress'' = Some (JFloat (max 0 (min 1 (step_ratio self)))) \<and>
       progress_field w' ''error'' = Some (JStr (name @ '': '' @ msg))"
        using progress_field_written [OF f] by (simp add: Some nt opt_str_def)
    qed
  qed
qed

lemma session_body_ok:
  assumes "store_ok w"
  obtains self' w' where
    "session_body cmds failure (self, w) =
       ((case failure of None \<Rightarrow> Return () | Some e \<Rightarrow> Raise e), (self', w'))"
    "store_ok w'" "started self' = started self"
    "completions w' + pending self' = completions w + pending self"
proof -
  from run_cmds_ok [OF assms, of cmds self] obtain self' w' where
    "run_cmds cmds (self, w) = (Return (), (self', w'))" "store_ok w'"
    "started self' = started self"
    "completions w' + pending self' = completions w + pending self"
    by blast
  then show thesis
    by (intro that [of self' w'])
       (simp_all add: session_body_def prog_defs split: option.splits)
qed

lemma with_task_ok:
  assumes "store_ok w" "clock w (ticks w) \<noteq> 0" "\<not> pt_closed self"
  obtains self' w' where
    "with_task (session_body cmds failure) (self, w) =
       ((case failure of None \<Rightarrow> Return () | Some e \<Rightarrow> Raise e), (self', w'))"
    "store_ok w'" "started self'" "pending self' = 0" "completions w' = Suc (completions w)"
proof -
  define self0 where "self0 = self\<lparr>pt_start_time := Some (clock w (ticks w))\<rparr>"
  from enter_ok [OF assms(1), of self] obtain w0 where
    e: "PulseTask_enter (self, w) = (Return (), (self0, w0))" and ok0: "store_ok w0"
    and k0: "completions w0 = completions w"
    unfolding self0_def by metis
  have s0: "started self0" "pending self0 = 1"
    using assms by (simp_all add: self0_def started_def pending_def)
  from session_body_ok [OF ok0, of cmds failure self0] obtain self1 w1 where
    b: "session_body cmds failure (self0, w0) =
       ((case failure of None \<Rightarrow> Return () | Some e \<Rightarrow> Raise e), (self1, w1))"
    and ok1: "store_ok w1" and s1: "started self1 = started self0"
    and k1: "completions w1 + pending self1 = completions w0 + pending self0"
    by metis
  define exc where "exc = (case failure of None \<Rightarrow> None | Some (Exn name text) \<Rightarrow> Some (name, text))"
  from exit_ok [OF ok1, of exc self1] obtain w2 where
    x: "PulseTask_exit exc (self1, w1) =
       (Return (), (self1\<lparr>pt_closed := pt_closed self1 \<or> started self1\<rparr>, w2))"
    and ok2: "store_ok w2" and k2: "completions w2 = completions w1 + pending self1"
    by metis
  show thesis
  proof (rule that [of "self1\<lparr>pt_closed := pt_closed self1 \<or> started self1\<rparr>" w2])
    show "with_task (session_body cmds failure) (self, w) =
       ((case failure of None \<Rightarrow> Return () | Some e \<Rightarrow> Raise e),
        (self1\<lparr>pt_closed := pt_closed self1 \<or> started self1\<rparr>, w2))"
      using e b x
      by (auto simp: with_task_def exc_def split: option.splits exn.splits)
    show "store_ok w2" by (rule ok2)
    show "started (self1\<lparr>pt_closed := pt_closed self1 \<or> started self1\<rparr>)"
      using s1 s0 by simp
    show "pending (self1\<lparr>pt_closed := pt_closed self1 \<or> started self1\<rparr>) = 0" by simp
    show "completions w2 = Suc (completions w)"
      using k2 k1 k0 s0 by simp
  qed
qed


text \<open>
  \<^verbatim>\<open>PulseProgress.close\<close> keeps no record of having run: a second call on an enabled
  wrapper that has counted above zero calls \<^verbatim>\<open>complete_task\<close> a second time.
\<close>

lemma wrapper_close_twice_completes_twice:
  assumes "store_ok w" "\<not> pp_disable self" "0 < pp_n self"
  shows "\<exists>w1 w2. close (self, w) = (Return (), (self, w1)) \<and>
           close (self, w1) = (Return (), (self, w2)) \<and>
           completions w2 = Suc (Suc (completions w))"
proof -
  from close_ok [OF assms] obtain w1 where
    c1: "close (self, w) = (Return (), (self, w1))" and ok1: "store_ok w1"
    and k1: "completions w1 = Suc (completions w)"
    by metis
  from close_ok [OF ok1 assms(2,3)] obtain w2 where
    "close (self, w1) = (Return (), (self, w2))" "completions w2 = Suc (completions w1)"
    by metis
  with c1 k1 show ?thesis by simp
qed

text \<open>
  C6, as the code has it. On a store as its own writes leave it: a session that was
  entered (at a clock reading other than 0) and whose scope runs any calls and ends
  normally or by an exception has called \<^verbatim>\<open>complete_task\<close> exactly once, however many
  \<^verbatim>\<open>close()\<close> calls are made in the body and afterwards; a session that was never entered
  never calls it. One \<^verbatim>\<open>close()\<close> or scope exit of a progress wrapper that is enabled and
  has counted above zero calls \<^verbatim>\<open>complete_task\<close> once, and one of a wrapper that is
  disabled or has counted nothing does not call it and changes nothing.
\<close>

theorem close_calls_complete_task:
  "(store_ok w \<and> clock w (ticks w) \<noteq> 0 \<longrightarrow>
      completions (snd (closes k (snd (with_task (session_body cmds failure)
        (PulseTask_init name steps fmt, w))))) = Suc (completions w)) \<and>
   (store_ok w \<longrightarrow>
      completions (snd (closes k (snd (run_cmds cmds (PulseTask_init name steps fmt, w)))))
        = completions w) \<and>
   (store_ok w \<and> \<not> pp_disable self \<and> 0 < pp_n self \<longrightarrow>
      (\<exists>w'. PulseProgress_exit exc (self, w) = (Return (), (self, w')) \<and>
         completions w' = Suc (completions w))) \<and>
   (pp_disable self \<or> pp_n self \<le> 0 \<longrightarrow>
      PulseProgress_exit exc (self, w) = (Return (), (self, w)))"
proof (intro conjI impI)
  assume a: "store_ok w \<and> clock w (ticks w) \<noteq> 0"
  have nc: "\<not> pt_closed (PulseTask_init name steps fmt)" by (simp add: PulseTask_init_def)
  from a with_task_ok [OF _ _ nc, of w cmds failure] obtain self1 w1 where
    wt: "with_task (session_body cmds failure) (PulseTask_init name steps fmt, w) =
       ((case failure of None \<Rightarrow> Return () | Some e \<Rightarrow> Raise e), (self1, w1))"
    and ok1: "store_ok w1" and p1: "pending self1 = 0"
    and k1: "completions w1 = Suc (completions w)"
    by metis
  from closes_ok [OF ok1, of k self1] obtain self2 w2 where
    "closes k (self1, w1) = (self2, w2)"
    "completions w2 + pending self2 = completions w1 + pending self1"
    "pending self2 \<le> pending self1"
    by blast
  then show "completions (snd (closes k (snd (with_task (session_body cmds failure)
        (PulseTask_init name steps fmt, w))))) = Suc (completions w)"
    using wt p1 k1 by simp
next
  assume ok: "store_ok w"
  have p0: "pending (PulseTask_init name steps fmt) = 0"
    by (simp add: pending_def started_def PulseTask_init_def)
  from run_cmds_ok [OF ok, of cmds "PulseTask_init name steps fmt"] obtain self1 w1 where
    r: "run_cmds cmds (PulseTask_init name steps fmt, w) = (Return (), (self1, w1))"
    and ok1: "store_ok w1" and s1: "started self1 = started (PulseTask_init name steps fmt)"
    and k1: "completions w1 + pending self1 =
       completions w + pending (PulseTask_init name steps fmt)"
    by blast
  from s1 have p1: "pending self1 = 0"
    by (simp add: pending_def started_def PulseTask_init_def)
  from closes_ok [OF ok1, of k self1] obtain self2 w2 where
    "closes k (self1, w1) = (self2, w2)"
    "completions w2 + pending self2 = completions w1 + pending self1"
    "pending self2 \<le> pending self1"
    by blast
  then show "completions (snd (closes k (snd (run_cmds cmds (PulseTask_init name steps fmt, w)))))
        = completions w"
    using r p1 p0 k1 by simp
next
  assume "store_ok w \<and> \<not> pp_disable self \<and> 0 < pp_n self"
  then have "store_ok w" "\<not> pp_disable self" "0 < pp_n self" by simp_all
  from close_ok [OF this]
  show "\<exists>w'. PulseProgress_exit exc (self, w) = (Return (), (self, w')) \<and>
         completions w' = Suc (completions w)"
    unfolding PulseProgress_exit_def by metis
next
  assume "pp_disable self \<or> pp_n self \<le> 0"
  then show "PulseProgress_exit exc (self, w) = (Return (), (self, w))"
    unfolding PulseProgress_exit_def by (rule close_skips)
qed

theorem close_calls_complete_task_witness:
  "(store_ok booted \<and> clock booted (ticks booted) \<noteq> 0 \<and>
    completions (snd (closes 2 (snd (with_task
      (session_body [Cmd_step ''load'' None, Cmd_close, Cmd_update_progress (3/4) None]
         (Some (Exn ''ValueError'' ''bad input'')))
      (PulseTask_init ''Job'' 3 default_step_format, booted))))) = 1) \<and>
   completions (snd (closes 2 (snd (run_cmds [Cmd_step ''load'' None]
      (PulseTask_init ''Job'' 3 default_step_format, booted))))) = 0 \<and>
   (\<not> pp_disable sample_tracker \<and> 0 < pp_n sample_tracker \<and>
    (\<exists>w'. PulseProgress_exit None (sample_tracker, booted) = (Return (), (sample_tracker, w')) \<and>
       completions w' = 1)) \<and>
   (pp_n (sample_tracker\<lparr>pp_n := 0\<rparr>) \<le> 0 \<and>
    PulseProgress_exit (Some (''ValueError'', ''bad input'')) (sample_tracker\<lparr>pp_n := 0\<rparr>, booted)
      = (Return (), (sample_tracker\<lparr>pp_n := 0\<rparr>, booted)))"
proof -
  have c: "completions booted = 0" by (simp add: completions_def)
  have s: "\<not> pp_disable sample_tracker" "pp_n sample_tracker = 2"
    by (simp_all add: sample_tracker_def)
  show ?thesis
    using close_calls_complete_task [of booted 2
        "[Cmd_step ''load'' None, Cmd_close, Cmd_update_progress (3/4) None]"
        "Some (Exn ''ValueError'' ''bad input'')" "''Job''" 3 default_step_format
        sample_tracker None]
      close_calls_complete_task [of booted 2 "[Cmd_step ''load'' None]"
        None "''Job''" 3 default_step_format "sample_tracker\<lparr>pp_n := 0\<rparr>"
        "Some (''ValueError'', ''bad input'')"]
    by (simp add: store_ok_booted c s)
qed

text \<open>
  The claim C6 as stated fails: the scope of \<^verbatim>\<open>PulseProgress(total=5, task="Load")\<close>
  left by an exception before any \<^verbatim>\<open>update\<close> runs \<^verbatim>\<open>close()\<close> without a call of
  \<^verbatim>\<open>complete_task\<close>, and the record stays active.
\<close>

theorem failed_scope_without_progress_never_completed:
  "fst (PulseProgress_init NoIterable None (Some 5) (Some ''Load'') None ''it'' True (1/10)
          False 0 booted) = Return (sample_tracker\<lparr>pp_n := 0\<rparr>) \<and>
   fst (PulseProgress_exit (Some (''ValueError'', ''bad input''))
          (sample_tracker\<lparr>pp_n := 0\<rparr>, load_world)) = Return () \<and>
   completions (snd (snd (PulseProgress_exit (Some (''ValueError'', ''bad input''))
          (sample_tracker\<lparr>pp_n := 0\<rparr>, load_world)))) = 0 \<and>
   progress_field (snd (snd (PulseProgress_exit (Some (''ValueError'', ''bad input''))
          (sample_tracker\<lparr>pp_n := 0\<rparr>, load_world)))) ''active'' = Some (JBool True)"
  by code_simp

lemma failing_session_run:
  assumes "store_ok w" "clock w (ticks w) \<noteq> 0"
  obtains self1 w2 where
    "with_task (session_body [Cmd_step description progress] (Some (Exn kind message)))
       (PulseTask_init name 2 fmt, w) =
     (Raise (Exn kind message), (self1\<lparr>pt_closed := pt_closed self1 \<or> started self1\<rparr>, w2))"
    "started self1" "pt_current_step self1 = 1" "pt_total_steps self1 = 2"
    "completions w2 = Suc (completions w)"
    "progress_field w2 ''active'' = Some (JBool True)"
    "progress_field w2 ''progress'' = Some (JFloat (max 0 (min 1 (step_ratio self1))))"
    "progress_field w2 ''error'' = Some (JStr (kind @ '': '' @ message))"
proof -
  define self0 where "self0 = (PulseTask_init name 2 fmt)\<lparr>pt_start_time := Some (clock w (ticks w))\<rparr>"
  from enter_ok [OF assms(1), of "PulseTask_init name 2 fmt"] obtain w0 where
    e: "PulseTask_enter (PulseTask_init name 2 fmt, w) = (Return (), (self0, w0))"
    and ok0: "store_ok w0" and k0: "completions w0 = completions w"
    unfolding self0_def by metis
  have s0: "started self0" "\<not> pt_closed self0" "pt_current_step self0 = 0"
    "pt_total_steps self0 = 2"
    using assms(2) by (simp_all add: self0_def started_def PulseTask_init_def)
  from step_ok [OF ok0, of description progress self0] obtain self1 w1 where
    st: "step description progress (self0, w0) = (Return (), (self1, w1))"
    and ok1: "store_ok w1" and k1: "completions w1 = completions w0"
    and s1: "started self1 = started self0" "pt_closed self1 = pt_closed self0"
      "pt_total_steps self1 = pt_total_steps self0"
      "pt_current_step self1 =
         (if pt_closed self0 then pt_current_step self0 else pt_current_step self0 + 1)"
    by metis
  have p1: "pending self1 = 1"
    using s0 s1 by (simp add: pending_def)
  from exit_ok [OF ok1, of "Some (kind, message)" self1] obtain w2 where
    x: "PulseTask_exit (Some (kind, message)) (self1, w1) =
       (Return (), (self1\<lparr>pt_closed := pt_closed self1 \<or> started self1\<rparr>, w2))"
    and k2: "completions w2 = completions w1 + pending self1"
    and f: "progress_field w2 ''active'' = Some (JBool True) \<and>
       progress_field w2 ''progress'' = Some (JFloat (max 0 (min 1 (step_ratio self1)))) \<and>
       progress_field w2 ''error'' = Some (JStr (kind @ '': '' @ message))"
    by metis
  have "with_task (session_body [Cmd_step description progress] (Some (Exn kind message)))
          (PulseTask_init name 2 fmt, w) =
        (Raise (Exn kind message), (self1\<lparr>pt_closed := pt_closed self1 \<or> started self1\<rparr>, w2))"
    using e st x by (simp add: with_task_def session_body_def prog_defs)
  then show thesis
    using f k2 k1 k0 p1 s0 s1 by (intro that [of self1 w2]) simp_all
qed

text \<open>
  C1, as the code has it. On a store as its own writes leave it, a session with
  \<^verbatim>\<open>total_steps\<close> = 2, entered at a clock reading other than 0, that has made exactly one
  step when an exception leaves its scope, lets the exception go on and leaves a progress
  document whose \<^verbatim>\<open>error\<close> is the string \<^verbatim>\<open>Kind: message\<close>, whose \<^verbatim>\<open>progress\<close> is 1/2 and
  whose \<^verbatim>\<open>active\<close> is true: \<^verbatim>\<open>__exit__\<close> closes first (one call of \<^verbatim>\<open>complete_task\<close>) and
  only then writes the error record with \<^verbatim>\<open>update_progress\<close>.
\<close>

theorem exit_with_failure_publishes_error:
  "store_ok w \<and> clock w (ticks w) \<noteq> 0 \<longrightarrow>
     (\<exists>self' w'.
        with_task (session_body [Cmd_step description progress] (Some (Exn kind message)))
          (PulseTask_init name 2 fmt, w) = (Raise (Exn kind message), (self', w')) \<and>
        progress_field w' ''error'' = Some (JStr (kind @ '': '' @ message)) \<and>
        progress_field w' ''progress'' = Some (JFloat (1/2)) \<and>
        progress_field w' ''active'' = Some (JBool True) \<and>
        pt_closed self' \<and> completions w' = Suc (completions w))"
proof
  assume a: "store_ok w \<and> clock w (ticks w) \<noteq> 0"
  then have ok: "store_ok w" and t: "clock w (ticks w) \<noteq> 0" by simp_all
  from failing_session_run [OF ok t, of description progress kind message name fmt]
  obtain self1 w2 where
    run: "with_task (session_body [Cmd_step description progress] (Some (Exn kind message)))
       (PulseTask_init name 2 fmt, w) =
     (Raise (Exn kind message), (self1\<lparr>pt_closed := pt_closed self1 \<or> started self1\<rparr>, w2))"
    and entered: "started self1"
    and steps: "pt_current_step self1 = 1" "pt_total_steps self1 = 2"
    and once: "completions w2 = Suc (completions w)"
    and doc: "progress_field w2 ''active'' = Some (JBool True)"
      "progress_field w2 ''progress'' = Some (JFloat (max 0 (min 1 (step_ratio self1))))"
      "progress_field w2 ''error'' = Some (JStr (kind @ '': '' @ message))"
    by metis
  have "int_truediv 1 2 = 1/2" by code_simp
  then have ratio: "step_ratio self1 = 1/2"
    using steps by (simp add: step_ratio_def)
  have half: "max 0 (min 1 (1/2 :: rat)) = 1/2" by simp
  have closed: "pt_closed (self1\<lparr>pt_closed := pt_closed self1 \<or> started self1\<rparr>)"
    using entered by simp
  show "\<exists>self' w'.
        with_task (session_body [Cmd_step description progress] (Some (Exn kind message)))
          (PulseTask_init name 2 fmt, w) = (Raise (Exn kind message), (self', w')) \<and>
        progress_field w' ''error'' = Some (JStr (kind @ '': '' @ message)) \<and>
        progress_field w' ''progress'' = Some (JFloat (1/2)) \<and>
        progress_field w' ''active'' = Some (JBool True) \<and>
        pt_closed self' \<and> completions w' = Suc (completions w)"
    using run doc once closed by (simp add: ratio half)
qed

theorem exit_with_failure_publishes_error_witness:
  "store_ok booted \<and> clock booted (ticks booted) \<noteq> 0 \<and>
   (\<exists>self' w'.
      with_task (session_body [Cmd_step ''Step 1'' None] (Some (Exn ''ValueError'' ''Test error'')))
        (PulseTask_init ''Error Test'' 2 default_step_format, booted)
        = (Raise (Exn ''ValueError'' ''Test error''), (self', w')) \<and>
      progress_field w' ''error'' = Some (JStr ''ValueError: Test error'') \<and>
      progress_field w' ''progress'' = Some (JFloat (1/2)) \<and>
      progress_field w' ''active'' = Some (JBool True) \<and>
      pt_closed self' \<and> completions w' = 1)"
proof -
  have c: "completions booted = 0" by (simp add: completions_def)
  show ?thesis
    using exit_with_failure_publishes_error [of booted "''Step 1''" None "''ValueError''"
        "''Test error''" "''Error Test''" default_step_format]
    by (simp add: store_ok_booted c)
qed

text \<open>
  The claim C1 as stated fails on \<^verbatim>\<open>active\<close>: after the test suite's failing session the
  document is active, while the value that \<^verbatim>\<open>complete_task\<close> writes is false.
\<close>

theorem failed_session_left_active:
  "fst (with_task (session_body [Cmd_step ''Step 1'' None]
          (Some (Exn ''ValueError'' ''Test error'')))
        (PulseTask_init ''Error Test'' 2 default_step_format, booted))
     = Raise (Exn ''ValueError'' ''Test error'') \<and>
   progress_field (snd (snd (with_task (session_body [Cmd_step ''Step 1'' None]
          (Some (Exn ''ValueError'' ''Test error'')))
        (PulseTask_init ''Error Test'' 2 default_step_format, booted)))) ''error''
     = Some (JStr ''ValueError: Test error'') \<and>
   progress_field (snd (snd (with_task (session_body [Cmd_step ''Step 1'' None]
          (Some (Exn ''ValueError'' ''Test error'')))
        (PulseTask_init ''Error Test'' 2 default_step_format, booted)))) ''progress''
     = Some (JFloat (1/2)) \<and>
   progress_field (snd (snd (with_task (session_body [Cmd_step ''Step 1'' None]
          (Some (Exn ''ValueError'' ''Test error'')))
        (PulseTask_init ''Error Test'' 2 default_step_format, booted)))) ''active''
     = Some (JBool True) \<and>
   py_getitem inactive_template ''active'' = Return (JBool False)"
proof -
  have t: "clock booted (ticks booted) \<noteq> 0" by simp
  from failing_session_run [OF store_ok_booted t, of "''Step 1''" None "''ValueError''"
      "''Test error''" "''Error Test''" default_step_format]
  obtain self1 w2 where
    "with_task (session_body [Cmd_step ''Step 1'' None] (Some (Exn ''ValueError'' ''Test error'')))
        (PulseTask_init ''Error Test'' 2 default_step_format, booted)
        = (Raise (Exn ''ValueError'' ''Test error''),
           (self1\<lparr>pt_closed := pt_closed self1 \<or> started self1\<rparr>, w2))"
    "pt_current_step self1 = 1" "pt_total_steps self1 = 2"
    "progress_field w2 ''active'' = Some (JBool True)"
    "progress_field w2 ''progress'' = Some (JFloat (max 0 (min 1 (step_ratio self1))))"
    "progress_field w2 ''error'' = Some (JStr (''ValueError'' @ '': '' @ ''Test error''))"
    by metis
  moreover have "int_truediv 1 2 = 1/2" by code_simp
  ultimately show ?thesis by (simp add: inactive_template_def step_ratio_def)
qed

end
